theory Spec2Isabelle
  imports
    Complex_Main
    "HOL-Library.Word"
    "HOL-Library.Char_ord"
    "HOL-Library.List_Lexorder"
    "HOL-Library.Multiset"
    "HOL-Library.Stream"
begin

section \<open>Configuration model\<close>

text \<open>
  \<^verbatim>\<open>model.Event\<close> and \<^verbatim>\<open>model.Config\<close>. The payload (\<^verbatim>\<open>Content\<close>, a
  \<^verbatim>\<open>proto.Message\<close>) is opaque here, a type parameter. Keys are Go strings, compared
  bytewise and lexicographically by \<^verbatim>\<open><\<close>, which is the order of \<^typ>\<open>string\<close> under
  \<^theory_text>\<open>Char_ord\<close> and \<^theory_text>\<open>List_Lexorder\<close>.
\<close>

datatype Event = EventAdd | EventUpdate | EventDelete

record 'p Config =
  Type :: string
  Key :: string
  Revision :: string
  Content :: 'p

section \<open>Polling monitor (adapter/config/memory/monitor.go)\<close>

text \<open>
  The two functions of the Go standard library that the monitor calls, as parameters.
  \<^verbatim>\<open>reflect.DeepEqual\<close> on two payloads is not HOL equality: it is false on a payload
  compared with itself when the payload holds a NaN floating point number, and it looks
  at pointers. \<^verbatim>\<open>sort.Slice(list, less)\<close> sorts the list by the order \<^verbatim>\<open>less\<close> and
  leaves open in which order records that the order does not tell apart come out; the
  order is a relation on the records here, where the source gives it on the indices of
  the slice that is being sorted.
\<close>

record 'p Library =
  reflectDeepEqual :: "'p \<Rightarrow> 'p \<Rightarrow> bool"
  sortSlice :: "'p Config list \<Rightarrow> ('p Config \<Rightarrow> 'p Config \<Rightarrow> bool) \<Rightarrow> 'p Config list"

text \<open>
  \<^verbatim>\<open>reflect.DeepEqual\<close> on two \<^verbatim>\<open>Config\<close> structs: the fields are deeply equal, the
  three strings by \<^verbatim>\<open>==\<close> and the payloads by the library.
\<close>

definition DeepEqual :: "'p Library \<Rightarrow> 'p Config \<Rightarrow> 'p Config \<Rightarrow> bool" where
  "DeepEqual lib a b =
     (Type a = Type b \<and> Key a = Key b \<and> Revision a = Revision b
      \<and> reflectDeepEqual lib (Content a) (Content b))"

text \<open>
  The monitor's ticker: \<^verbatim>\<open>nil\<close> before \<^verbatim>\<open>Start\<close>, armed with the period by
  \<^verbatim>\<open>time.NewTicker\<close>, disarmed by \<^verbatim>\<open>ticker.Stop()\<close>.
\<close>

datatype Ticker = Armed nat | Disarmed

text \<open>
  \<^verbatim>\<open>configsMonitor\<close>. The handler callbacks receive a record and an event and have
  no influence on the monitor's own state; every call
  \<^verbatim>\<open>m.applyHandlers(typ, config, e)\<close> is recorded, in order, in \<open>emitted\<close>. The store
  is an external collaborator whose answers change over time, so the answers of
  \<^verbatim>\<open>m.store.List\<close> are an argument of each tick.
\<close>

record 'p configsMonitor =
  configCachedRecord :: "string \<rightharpoonup> 'p Config list"
  ticker :: "Ticker option"
  period :: nat
  emitted :: "(string \<times> 'p Config \<times> Event) list"

type_synonym ('e, 'p) ListFn = "string \<Rightarrow> 'e + 'p Config list"

text \<open>Reading a Go map at an absent key gives the zero value, here the nil slice.\<close>

definition cached :: "'p configsMonitor \<Rightarrow> string \<Rightarrow> 'p Config list" where
  "cached m typ = (case configCachedRecord m typ of None \<Rightarrow> [] | Some xs \<Rightarrow> xs)"

text \<open>
  \<^verbatim>\<open>NewConfigsMonitor\<close>: an empty cache entry for every type of
  \<^verbatim>\<open>model.IstioConfigTypes\<close>. That list is declared elsewhere in package
  \<^verbatim>\<open>model\<close> and is a parameter here (the type names, in order).
\<close>

definition NewConfigsMonitor :: "string list \<Rightarrow> nat \<Rightarrow> 'p configsMonitor" where
  "NewConfigsMonitor IstioConfigTypes p =
     \<lparr> configCachedRecord = fold (\<lambda>typ cache. cache(typ \<mapsto> [])) IstioConfigTypes Map.empty,
       ticker = None,
       period = p,
       emitted = [] \<rparr>"

text \<open>\<^verbatim>\<open>normalize\<close>: \<^verbatim>\<open>sort.Slice\<close> with \<^verbatim>\<open>list[i].Key < list[j].Key\<close>.\<close>

definition normalize :: "'p Library \<Rightarrow> 'p Config list \<Rightarrow> 'p Config list" where
  "normalize lib list = sortSlice lib list (\<lambda>a b. Key a < Key b)"

text \<open>
  \<^verbatim>\<open>compareToCache\<close>: the two cursors \<open>io\<close> and \<open>in\<close> walk both sequences. The source
  decrements a cursor and increments both at the end of the body; the net effect of each
  branch is written out. The result lists the \<^verbatim>\<open>applyHandlers\<close> calls in order. The two
  trailing loops emit a delete for what is left of the old sequence, then an add for what
  is left of the new one.
\<close>

function compareLoop ::
  "'p Library \<Rightarrow> 'p Config list \<Rightarrow> 'p Config list \<Rightarrow> nat \<Rightarrow> nat \<Rightarrow>
   ('p Config \<times> Event) list" where
  "compareLoop lib oldRec newRec io inn =
     (if io < length oldRec \<and> inn < length newRec then
        (if DeepEqual lib (oldRec ! io) (newRec ! inn) then
           compareLoop lib oldRec newRec (io + 1) (inn + 1)
         else if Key (oldRec ! io) = Key (newRec ! inn) then
           (newRec ! inn, EventUpdate) # compareLoop lib oldRec newRec (io + 1) (inn + 1)
         else if Key (oldRec ! io) < Key (newRec ! inn) then
           (oldRec ! io, EventDelete) # compareLoop lib oldRec newRec (io + 1) inn
         else
           (newRec ! inn, EventAdd) # compareLoop lib oldRec newRec io (inn + 1))
      else
        map (\<lambda>c. (c, EventDelete)) (drop io oldRec) @
        map (\<lambda>c. (c, EventAdd)) (drop inn newRec))"
  by pat_completeness auto
termination
  by (relation "measure (\<lambda>(lib, oldRec, newRec, io, inn). (length oldRec - io) + (length newRec - inn))")
     auto

declare compareLoop.simps [simp del]

definition compareToCache ::
  "'p Library \<Rightarrow> 'p Config list \<Rightarrow> 'p Config list \<Rightarrow> ('p Config \<times> Event) list" where
  "compareToCache lib oldRec newRec = compareLoop lib oldRec newRec 0 0"

text \<open>
  \<^verbatim>\<open>UpdateConfigRecord\<close>: the loop over \<^verbatim>\<open>model.IstioConfigTypes\<close>. When
  \<^verbatim>\<open>m.store.List\<close> fails, the source logs a warning and executes \<^verbatim>\<open>return\<close>, which
  leaves the whole function, not only the current iteration.
\<close>

fun UpdateConfigRecord ::
  "'p Library \<Rightarrow> string list \<Rightarrow> ('e, 'p) ListFn \<Rightarrow> 'p configsMonitor \<Rightarrow> 'p configsMonitor" where
  "UpdateConfigRecord lib [] storeList m = m"
| "UpdateConfigRecord lib (typ # rest) storeList m =
     (case storeList typ of
        Inl err \<Rightarrow> m
      | Inr configs \<Rightarrow>
          (let newRecord = normalize lib configs;
               events = compareToCache lib (cached m typ) newRecord
           in UpdateConfigRecord lib rest storeList
                (m\<lparr> emitted := emitted m @ map (\<lambda>(c, e). (typ, c, e)) events,
                    configCachedRecord := (configCachedRecord m)(typ \<mapsto> newRecord) \<rparr>)))"

text \<open>
  \<^verbatim>\<open>Start\<close> and \<^verbatim>\<open>run\<close>. Each iteration of the \<^verbatim>\<open>for { select { ... } }\<close> loop
  takes one ready case: the stop channel, or a tick (with the store's answers at that
  moment). The stream is the order in which the runtime serves the cases. Neither case
  of the source leaves the loop; where the loop does not return, the result is \<open>None\<close>.
\<close>

datatype ('e, 'p) SelectCase = StopReady | TickReady "('e, 'p) ListFn"

partial_function (option) run ::
  "'p Library \<Rightarrow> string list \<Rightarrow> ('e, 'p) SelectCase stream \<Rightarrow> 'p configsMonitor \<Rightarrow>
   'p configsMonitor option" where
  "run lib IstioConfigTypes sched m =
     (case shd sched of
        StopReady \<Rightarrow> run lib IstioConfigTypes (stl sched) (m\<lparr> ticker := Some Disarmed \<rparr>)
      | TickReady storeList \<Rightarrow>
          run lib IstioConfigTypes (stl sched)
            (UpdateConfigRecord lib IstioConfigTypes storeList m))"

definition Start ::
  "'p Library \<Rightarrow> string list \<Rightarrow> ('e, 'p) SelectCase stream \<Rightarrow> 'p configsMonitor \<Rightarrow>
   'p configsMonitor option" where
  "Start lib IstioConfigTypes sched m =
     run lib IstioConfigTypes sched (m\<lparr> ticker := Some (Armed (period m)) \<rparr>)"

section \<open>Ingress controller (adapter/config/ingress/controller.go)\<close>

text \<open>
  The two errors the controller creates: the package variable \<^verbatim>\<open>errUnsupportedOp\<close> and
  the error of the first handler of the chain.
\<close>

datatype ingress_error = errUnsupportedOp | errWaitingSync

text \<open>
  The shared informer of the client library, as far as the controller reads it:
  \<^verbatim>\<open>HasSynced()\<close>, \<^verbatim>\<open>GetStore().GetByKey(key)\<close> and \<^verbatim>\<open>GetStore().List()\<close>. The
  informer is created for \<^verbatim>\<open>v1beta1.Ingress\<close> objects only; the ingress type is the
  parameter \<open>'i\<close>.
\<close>

record ('i, 'x) Informer =
  HasSynced :: bool
  GetByKey :: "string \<Rightarrow> 'x + 'i option"
  ListStore :: "'i list"

text \<open>
  Functions and constants that the controller calls and that are declared elsewhere: in
  this package (the conversion of an ingress), in \<^verbatim>\<open>model\<close> (the ingress rule type
  name) and in \<^verbatim>\<open>kube\<close> (the key function). They are parameters.
  \<^verbatim>\<open>convertIngress\<close> returns a Go map from key to rule; it is an association list in
  the order in which \<^verbatim>\<open>range\<close> visits the map.
\<close>

record ('i, 'mesh, 'p, 'x) IngressEnv =
  IngressRuleType :: string
  shouldProcessIngress :: "'mesh \<Rightarrow> 'i \<Rightarrow> bool"
  convertIngress :: "'i \<Rightarrow> string \<Rightarrow> (string \<times> 'p) list"
  decodeIngressRuleName :: "string \<Rightarrow> 'x + (string \<times> string)"
  KeyFunc :: "string \<Rightarrow> string \<Rightarrow> string"
  GetResourceVersion :: "'i \<Rightarrow> string"

text \<open>
  A handler of the chain, \<^verbatim>\<open>func(obj interface{}, event model.Event) error\<close>. The
  closures read the informer when they are called, and the registered callbacks act on
  the outside world \<open>'w\<close>; both are arguments here. \<open>None\<close> is the \<^verbatim>\<open>nil\<close> error.
\<close>

type_synonym ('i, 'x, 'w) ChainFn =
  "('i, 'x) Informer \<Rightarrow> 'i \<Rightarrow> Event \<Rightarrow> 'w \<Rightarrow> ingress_error option \<times> 'w"

record ('i, 'mesh, 'x, 'w) controller =
  mesh :: 'mesh
  domainSuffix :: string
  informer :: "('i, 'x) Informer"
  handler :: "('i, 'x, 'w) ChainFn list"

record ControllerOptions =
  Namespace :: string
  DomainSuffix :: string

text \<open>
  The first handler that \<^verbatim>\<open>NewController\<close> appends to the chain (the log line has no
  effect on the result).
\<close>

definition syncHandler :: "('i, 'x, 'w) ChainFn" where
  "syncHandler informerNow obj event w =
     (if \<not> HasSynced informerNow then (Some errWaitingSync, w) else (None, w))"

definition NewController ::
  "('i, 'x) Informer \<Rightarrow> 'mesh \<Rightarrow> ControllerOptions \<Rightarrow> ('i, 'mesh, 'x, 'w) controller" where
  "NewController newInformer meshConfig options =
     \<lparr> mesh = meshConfig,
       domainSuffix = DomainSuffix options,
       informer = newInformer,
       handler = [syncHandler] \<rparr>"

text \<open>
  \<^verbatim>\<open>RegisterEventHandler\<close>: appends a handler that converts the ingress and calls
  \<open>f\<close> once per rule. The argument \<open>typ\<close> is not used by the source.
\<close>

definition RegisterEventHandler ::
  "('i, 'mesh, 'p, 'x) IngressEnv \<Rightarrow> ('i, 'mesh, 'x, 'w) controller \<Rightarrow> string \<Rightarrow>
   ('p Config \<Rightarrow> Event \<Rightarrow> 'w \<Rightarrow> 'w) \<Rightarrow> ('i, 'mesh, 'x, 'w) controller" where
  "RegisterEventHandler env c typ f =
     c\<lparr> handler := handler c @
        [\<lambda>informerNow ingress event w.
           if \<not> shouldProcessIngress env (mesh c) ingress then (None, w)
           else (None,
                 fold (\<lambda>(key, rule).
                         f \<lparr> Type = IngressRuleType env, Key = key, Revision = [], Content = rule \<rparr>
                           event)
                      (convertIngress env ingress (domainSuffix c)) w)] \<rparr>"

text \<open>
  Modelled from the spec: \<^verbatim>\<open>kube.ChainHandler.Apply\<close> (package \<^verbatim>\<open>kube\<close>), whose
  source is missing. The spec: "an ordered list of processing steps applied to every
  dequeued item; the first step gates all subsequent ones", and a failed item is
  requeued. The steps run in order and the first error ends the pass.
\<close>

fun Apply ::
  "('i, 'x, 'w) ChainFn list \<Rightarrow> ('i, 'x) Informer \<Rightarrow> 'i \<Rightarrow> Event \<Rightarrow> 'w \<Rightarrow>
   ingress_error option \<times> 'w" where
  "Apply [] informerNow obj event w = (None, w)"
| "Apply (f # fs) informerNow obj event w =
     (case f informerNow obj event w of
        (Some err, w') \<Rightarrow> (Some err, w')
      | (None, w') \<Rightarrow> Apply fs informerNow obj event w')"

text \<open>
  \<^verbatim>\<open>Get\<close> returns the rule (\<open>None\<close> is \<^verbatim>\<open>nil\<close>), the found flag and the revision.
\<close>

definition Get ::
  "('i, 'mesh, 'p, 'x) IngressEnv \<Rightarrow> ('i, 'mesh, 'x, 'w) controller \<Rightarrow> string \<Rightarrow> string \<Rightarrow>
   'p option \<times> bool \<times> string" where
  "Get env c typ key =
     (if typ \<noteq> IngressRuleType env then (None, False, [])
      else
        (case decodeIngressRuleName env key of
           Inl err \<Rightarrow> (None, False, [])
         | Inr (ingressName, ingressNamespace) \<Rightarrow>
             (case GetByKey (informer c) (KeyFunc env ingressName ingressNamespace) of
                Inl err \<Rightarrow> (None, False, [])
              | Inr None \<Rightarrow> (None, False, [])
              | Inr (Some ingress) \<Rightarrow>
                  (if \<not> shouldProcessIngress env (mesh c) ingress then (None, False, [])
                   else
                     (let rules = convertIngress env ingress (domainSuffix c)
                      in (case map_of rules key of
                            None \<Rightarrow> (None, False, GetResourceVersion env ingress)
                          | Some rule \<Rightarrow> (Some rule, True, GetResourceVersion env ingress)))))))"

definition List_ingress ::
  "('i, 'mesh, 'p, 'x) IngressEnv \<Rightarrow> ('i, 'mesh, 'x, 'w) controller \<Rightarrow> string \<Rightarrow>
   ingress_error + 'p Config list" where
  "List_ingress env c typ =
     (if typ \<noteq> IngressRuleType env then Inl errUnsupportedOp
      else
        Inr (concat (map (\<lambda>ingress.
               if shouldProcessIngress env (mesh c) ingress then
                 map (\<lambda>(key, rule).
                        \<lparr> Type = IngressRuleType env, Key = key,
                          Revision = GetResourceVersion env ingress, Content = rule \<rparr>)
                     (convertIngress env ingress (domainSuffix c))
               else [])
             (ListStore (informer c)))))"

text \<open>
  The write operations. Each returns its results together with the controller after the
  call; none of them touches the receiver.
\<close>

definition Post ::
  "('i, 'mesh, 'x, 'w) controller \<Rightarrow> 'p \<Rightarrow> (string \<times> ingress_error option) \<times> ('i, 'mesh, 'x, 'w) controller" where
  "Post c msg = (([], Some errUnsupportedOp), c)"

definition Put ::
  "('i, 'mesh, 'x, 'w) controller \<Rightarrow> 'p \<Rightarrow> string \<Rightarrow>
   (string \<times> ingress_error option) \<times> ('i, 'mesh, 'x, 'w) controller" where
  "Put c msg revision = (([], Some errUnsupportedOp), c)"

definition Delete ::
  "('i, 'mesh, 'x, 'w) controller \<Rightarrow> string \<Rightarrow> string \<Rightarrow>
   ingress_error option \<times> ('i, 'mesh, 'x, 'w) controller" where
  "Delete c typ key = (Some errUnsupportedOp, c)"

section \<open>Validation (model/validation.go)\<close>

text \<open>
  A floating point number (\<^verbatim>\<open>float32\<close>, \<^verbatim>\<open>float64\<close>) as far as comparisons see it: a
  finite value, an infinity or NaN. \<^verbatim>\<open><\<close> and \<^verbatim>\<open>==\<close> are those of the language: every
  comparison with NaN is false.
\<close>

datatype float = Finite real | PosInf | NegInf | NaN

fun floatLess :: "float \<Rightarrow> float \<Rightarrow> bool" where
  "floatLess (Finite a) (Finite b) = (a < b)"
| "floatLess (Finite a) PosInf = True"
| "floatLess NegInf (Finite b) = True"
| "floatLess NegInf PosInf = True"
| "floatLess a b = False"

definition floatEqual :: "float \<Rightarrow> float \<Rightarrow> bool" where
  "floatEqual a b = (a = b \<and> a \<noteq> NaN)"

text \<open>
  Go errors as values. A \<open>verror\<close> is one error created by \<^verbatim>\<open>fmt.Errorf\<close> or
  \<^verbatim>\<open>errors.New\<close>, named after its message, with the formatted arguments; \<open>Message\<close>
  is an error of a fixed text, \<open>OtherError\<close> is any error of a function that is a
  parameter here, and \<open>Prefixed\<close> is an error wrapped by \<^verbatim>\<open>multierror.Prefix\<close>. An \<open>error\<close> is one such error or a
  \<^verbatim>\<open>*multierror.Error\<close> with its list. The \<^verbatim>\<open>nil\<close> error is \<open>None\<close>.
\<close>

datatype prefix = Literal string | HeaderNameInvalid string | HeaderValueInvalid string

datatype verror =
    MissingKeyFunction string
  | InvalidType string
  | InvalidPlural string
  | CannotDiscoverMessageType string
  | DuplicateType string
  | DuplicateMessageType string
  | InvalidNilObject
  | UndeclaredType string
  | CannotCastToProtoMessage
  | MismatchedMessageType string string
  | DomainNameTooLong string
  | EmptyDomainName
  | DomainNameInvalidLabel string string
  | InvalidTagKey string
  | InvalidTagValue string
  | MustBeInRange0To100
  | RouteWeightsTotal int
  | CannotCastToRoutingRule
  | RouteRuleMustHaveName
  | RouteRuleNameMustBeLabel
  | RouteRuleMustHaveDestination
  | RewriteMustSpecify
  | BothRouteAndRedirect
  | BothFaultAndRedirect
  | RedirectMustSpecify
  | BothRewriteAndRedirect
  | L4FaultsNotImplemented
  | NotValidCIDRNotation string
  | NotValidCIDRBlock string
  | NotValidIPAddress string
  | UnrecognizedStringMatch
  | ExactHeaderValueEmpty string
  | PrefixHeaderValueEmpty string
  | RegexHeaderValueEmpty string
  | InvalidAbortHTTPStatus int
  | Message string
  | OtherError string
  | Prefixed prefix verror

datatype error = Plain verror | Multi "verror list"

text \<open>The single errors an error value stands for.\<close>

fun errorsOf :: "error option \<Rightarrow> verror list" where
  "errorsOf None = []"
| "errorsOf (Some (Plain e)) = [e]"
| "errorsOf (Some (Multi es)) = es"

text \<open>
  The library \<^verbatim>\<open>go-multierror\<close>: \<^verbatim>\<open>Append(err, e)\<close> returns a multierror with the
  errors of \<open>err\<close> followed by \<open>e\<close>, where a multierror argument is flattened;
  \<^verbatim>\<open>Prefix(err, prefix)\<close> wraps the error, or each error of a multierror.
\<close>

definition Append :: "error option \<Rightarrow> error \<Rightarrow> error option" where
  "Append err e = Some (Multi (errorsOf err @ errorsOf (Some e)))"

fun Prefix :: "error \<Rightarrow> prefix \<Rightarrow> error" where
  "Prefix (Plain e) prefix = Plain (Prefixed prefix e)"
| "Prefix (Multi es) prefix = Multi (map (Prefixed prefix) es)"

text \<open>
  \<^verbatim>\<open>IsDNS1123Label\<close>: at most 63 bytes and a match of
  \<^verbatim>\<open>^[a-z0-9]([-a-z0-9]*[a-z0-9])?$\<close>, that is: not empty, first and last character a
  lower-case letter or a digit, every character one of these or a hyphen.
\<close>

definition dns1123LabelMaxLength :: nat where
  "dns1123LabelMaxLength = 63"

definition isLowerAlnum :: "char \<Rightarrow> bool" where
  "isLowerAlnum c = ((CHR ''a'' \<le> c \<and> c \<le> CHR ''z'') \<or> (CHR ''0'' \<le> c \<and> c \<le> CHR ''9''))"

definition dns1123LabelRex :: "string \<Rightarrow> bool" where
  "dns1123LabelRex s =
     (case s of
        [] \<Rightarrow> False
      | c # cs \<Rightarrow> isLowerAlnum c \<and> isLowerAlnum (last s)
                 \<and> list_all (\<lambda>c. c = CHR ''-'' \<or> isLowerAlnum c) s)"

definition IsDNS1123Label :: "string \<Rightarrow> bool" where
  "IsDNS1123Label v = (length v \<le> dns1123LabelMaxLength \<and> dns1123LabelRex v)"

text \<open>\<^verbatim>\<open>tagRegexp\<close>: a match of \<^verbatim>\<open>^[-A-Za-z0-9_./]*$\<close>.\<close>

definition tagRegexp :: "string \<Rightarrow> bool" where
  "tagRegexp s =
     list_all (\<lambda>c. c = CHR ''-'' \<or> (CHR ''A'' \<le> c \<and> c \<le> CHR ''Z'') \<or> isLowerAlnum c
                 \<or> c = CHR ''_'' \<or> c = CHR ''.'' \<or> c = CHR ''/'') s"

text \<open>\<^verbatim>\<open>strings.Split(s, sep)\<close> for a separator of one byte.\<close>

fun Split :: "string \<Rightarrow> char \<Rightarrow> string list" where
  "Split [] sep = [[]]"
| "Split (c # cs) sep =
     (if c = sep then [] # Split cs sep
      else (case Split cs sep of
              [] \<Rightarrow> [[c]]
            | part # parts \<Rightarrow> (c # part) # parts))"

text \<open>
  Modelled from the spec: \<^verbatim>\<open>ProtoSchema\<close> and \<^verbatim>\<open>ConfigDescriptor\<close> (package
  \<^verbatim>\<open>model\<close>), whose declarations are missing. The spec: a kind has "a unique type
  name, a plural display name, a payload-schema identifier, a key-extraction function
  (payload to string key), and a type-specific validation function"; the registry is a
  list of kinds. The key function may be \<^verbatim>\<open>nil\<close>.
\<close>

record 'm ProtoSchema =
  Type_schema :: string
  Plural :: string
  MessageName :: string
  Validate_schema :: "'m \<Rightarrow> error option"
  Key_schema :: "('m \<Rightarrow> string) option"

type_synonym 'm ConfigDescriptor = "'m ProtoSchema list"

text \<open>
  Modelled from the spec: \<^verbatim>\<open>ConfigDescriptor.GetByType\<close> (package \<^verbatim>\<open>model\<close>), whose
  source is missing. The spec: a type is registered when the registry has a kind of that
  type name; the result is the first such kind.
\<close>

definition GetByType :: "'m ConfigDescriptor \<Rightarrow> string \<Rightarrow> 'm ProtoSchema option" where
  "GetByType descriptor name = find (\<lambda>schema. Type_schema schema = name) descriptor"

text \<open>
  \<^verbatim>\<open>ConfigDescriptor.Validate\<close>. \<open>messageType\<close> tells whether
  \<^verbatim>\<open>proto.MessageType(name)\<close> finds a registered message type (the registry of the
  protobuf library). The two Go maps \<^verbatim>\<open>types\<close> and \<^verbatim>\<open>messages\<close> are sets of names.
  The error for an invalid plural carries \<^verbatim>\<open>v.Type\<close>, as in the source.
\<close>

fun Validate_loop ::
  "(string \<Rightarrow> bool) \<Rightarrow> 'm ConfigDescriptor \<Rightarrow> string set \<Rightarrow> string set \<Rightarrow> error option \<Rightarrow>
   error option" where
  "Validate_loop messageType [] types messages errs = errs"
| "Validate_loop messageType (v # rest) types messages errs =
     (let errs = (if Key_schema v = None
                  then Append errs (Plain (MissingKeyFunction (Type_schema v))) else errs);
          errs = (if \<not> IsDNS1123Label (Type_schema v)
                  then Append errs (Plain (InvalidType (Type_schema v))) else errs);
          errs = (if \<not> IsDNS1123Label (Plural v)
                  then Append errs (Plain (InvalidPlural (Type_schema v))) else errs);
          errs = (if \<not> messageType (MessageName v)
                  then Append errs (Plain (CannotDiscoverMessageType (MessageName v))) else errs);
          errs = (if Type_schema v \<in> types
                  then Append errs (Plain (DuplicateType (Type_schema v))) else errs);
          types = insert (Type_schema v) types;
          errs = (if MessageName v \<in> messages
                  then Append errs (Plain (DuplicateMessageType (MessageName v))) else errs);
          messages = insert (MessageName v) messages
      in Validate_loop messageType rest types messages errs)"

definition Validate :: "(string \<Rightarrow> bool) \<Rightarrow> 'm ConfigDescriptor \<Rightarrow> error option" where
  "Validate messageType descriptor = Validate_loop messageType descriptor {} {} None"

text \<open>
  \<^verbatim>\<open>ValidateConfig\<close>. The argument is an \<^verbatim>\<open>interface{}\<close>: \<^verbatim>\<open>nil\<close>, a value that
  is not a \<^verbatim>\<open>proto.Message\<close>, or a message. \<open>messageName\<close> is
  \<^verbatim>\<open>proto.MessageName\<close> of the protobuf library.
\<close>

datatype 'm Object = NilObject | NotProtoMessage | ProtoMessage 'm

definition ValidateConfig ::
  "('m \<Rightarrow> string) \<Rightarrow> 'm ConfigDescriptor \<Rightarrow> string \<Rightarrow> 'm Object \<Rightarrow> error option" where
  "ValidateConfig messageName descriptor typ obj =
     (case obj of
        NilObject \<Rightarrow> Some (Plain InvalidNilObject)
      | _ \<Rightarrow>
        (case GetByType descriptor typ of
           None \<Rightarrow> Some (Plain (UndeclaredType typ))
         | Some t \<Rightarrow>
             (case obj of
                ProtoMessage v \<Rightarrow>
                  (if messageName v \<noteq> MessageName t
                   then Some (Plain (MismatchedMessageType (messageName v) (MessageName t)))
                   else Validate_schema t v)
              | _ \<Rightarrow> Some (Plain CannotCastToProtoMessage))))"

text \<open>\<^verbatim>\<open>ValidateFQDN\<close> returns at the first check that fails.\<close>

definition ValidateFQDN :: "string \<Rightarrow> error option" where
  "ValidateFQDN fqdn =
     (if length fqdn > 255 then Some (Plain (DomainNameTooLong fqdn))
      else if length fqdn = 0 then Some (Plain EmptyDomainName)
      else
        (case find (\<lambda>label. \<not> IsDNS1123Label label) (Split fqdn CHR ''.'') of
           Some label \<Rightarrow> Some (Plain (DomainNameInvalidLabel fqdn label))
         | None \<Rightarrow> None))"

text \<open>
  \<^verbatim>\<open>Tags.Validate\<close>: the tags are a Go map, here the list of its entries in the order
  of the \<^verbatim>\<open>range\<close> loop.
\<close>

definition Validate_Tags :: "(string \<times> string) list \<Rightarrow> error option" where
  "Validate_Tags t =
     fold (\<lambda>(k, v) errs.
             (let errs = (if \<not> tagRegexp k then Append errs (Plain (InvalidTagKey k)) else errs)
              in if \<not> tagRegexp v then Append errs (Plain (InvalidTagValue v)) else errs))
          t None"

definition ValidatePercent :: "32 word \<Rightarrow> error option" where
  "ValidatePercent val =
     (if sint val < 0 \<or> sint val > 100 then Some (Plain MustBeInRange0To100) else None)"

record DestinationWeight =
  Destination_dw :: string
  Tags :: "(string \<times> string) list"
  Weight :: "32 word"

definition ValidateDestinationWeight :: "DestinationWeight \<Rightarrow> error option" where
  "ValidateDestinationWeight dw =
     (let errs = None;
          errs = (if Destination_dw dw \<noteq> []
                  then (case ValidateFQDN (Destination_dw dw) of
                          Some err \<Rightarrow> Append errs err
                        | None \<Rightarrow> errs)
                  else errs);
          errs = (case Validate_Tags (Tags dw) of Some err \<Rightarrow> Append errs err | None \<Rightarrow> errs);
          errs = (case ValidatePercent (Weight dw) of
                    Some err \<Rightarrow> Append errs (Prefix err (Literal ''weight invalid: ''))
                  | None \<Rightarrow> errs)
      in errs)"

text \<open>
  \<^verbatim>\<open>ValidateWeights\<close>: the weights are \<^verbatim>\<open>int32\<close>, the sum is a Go \<^verbatim>\<open>int\<close>, 64 bits
  wide on the platforms the program is built for; \<^verbatim>\<open>int(w)\<close> extends the sign and the
  addition wraps around.
\<close>

definition ValidateWeights :: "DestinationWeight list \<Rightarrow> string \<Rightarrow> error option" where
  "ValidateWeights routes defaultDestination =
     (let sum = fold (\<lambda>destWeight sum. sum + (scast (Weight destWeight) :: 64 word)) routes 0
      in if length routes = 1 \<and> sum = 0 then None
         else if sum \<noteq> 100 then Append None (Plain (RouteWeightsTotal (sint sum)))
         else None)"

text \<open>
  Library functions and the one constant of package \<^verbatim>\<open>model\<close> that the validators of a
  routing rule use, as parameters: \<^verbatim>\<open>strconv.Atoi\<close> (\<open>None\<close> when it returns an error),
  \<^verbatim>\<open>strings.ToLower\<close>, \<^verbatim>\<open>ptypes.Duration\<close> (the error message, or the duration in
  nanoseconds) and \<^verbatim>\<open>model.HeaderURI\<close>. The duration message of the protobuf library is
  the type parameter \<open>'d\<close>; a \<^verbatim>\<open>nil\<close> pointer is \<open>None\<close>.
\<close>

record 'd ValidationEnv =
  Atoi :: "string \<Rightarrow> int option"
  ToLower :: "string \<Rightarrow> string"
  Duration :: "'d option \<Rightarrow> string + int"
  HeaderURI :: string

text \<open>
  The messages of the API package \<^verbatim>\<open>proxyconfig\<close>, as far as the validators read them.
  A \<^verbatim>\<open>nil\<close> pointer or slice and an unset \<^verbatim>\<open>oneof\<close> are \<open>None\<close>; a Go map is the
  list of its entries in the order of the \<^verbatim>\<open>range\<close> loop; an integer field that is only
  compared is an \<open>int\<close>.
\<close>

record L4MatchAttributes =
  SourceSubnet :: "string list"
  DestinationSubnet :: "string list"

datatype StringMatch_MatchType =
  StringMatch_Exact string | StringMatch_Prefix string | StringMatch_Regex string

record StringMatch =
  MatchType :: "StringMatch_MatchType option"

record MatchCondition =
  Source :: string
  SourceTags :: "(string \<times> string) list"
  Tcp :: "L4MatchAttributes option"
  Udp :: "L4MatchAttributes option"
  HttpHeaders :: "(string \<times> StringMatch) list"

record 'd HTTPTimeout_SimpleTimeoutPolicy =
  Timeout :: "'d option"

record 'd HTTPTimeout =
  SimpleTimeout :: "'d HTTPTimeout_SimpleTimeoutPolicy option"

record 'd HTTPRetry_SimpleRetryPolicy =
  Attempts :: int
  PerTryTimeout :: "'d option"

record 'd HTTPRetry =
  SimpleRetry :: "'d HTTPRetry_SimpleRetryPolicy option"

datatype 'd HttpDelayType = FixedDelay "'d option" | ExponentialDelay "'d option"

record 'd HTTPFaultInjection_Delay =
  Percent_delay :: float
  HttpDelayType :: "'d HttpDelayType option"

datatype Abort_ErrorType = GrpcStatus string | Http2Error string | HttpStatus int

record HTTPFaultInjection_Abort =
  Percent_abort :: float
  ErrorType :: "Abort_ErrorType option"

record 'd HTTPFaultInjection =
  Delay :: "'d HTTPFaultInjection_Delay option"
  Abort :: "HTTPFaultInjection_Abort option"

record L4FaultInjection_Terminate =
  Percent_terminate :: float

datatype 'd ThrottleAfter = ThrottleAfterPeriod "'d option" | ThrottleAfterBytes float

record 'd L4FaultInjection_Throttle =
  Percent_throttle :: float
  DownstreamLimitBps :: int
  UpstreamLimitBps :: int
  ThrottleAfter :: "'d ThrottleAfter option"

record 'd L4FaultInjection =
  Throttle :: "'d L4FaultInjection_Throttle option"
  Terminate :: "L4FaultInjection_Terminate option"

record HTTPRewrite =
  Uri_rewrite :: string
  Authority_rewrite :: string

record HTTPRedirect =
  Uri_redirect :: string
  Authority_redirect :: string

record 'd RouteRule =
  Name :: string
  Destination :: string
  Match :: "MatchCondition option"
  Rewrite :: "HTTPRewrite option"
  Redirect :: "HTTPRedirect option"
  Route :: "DestinationWeight list option"
  HttpReqTimeout :: "'d HTTPTimeout option"
  HttpReqRetries :: "'d HTTPRetry option"
  HttpFault :: "'d HTTPFaultInjection option"
  L4Fault :: "'d L4FaultInjection option"

text \<open>The getters of the \<^verbatim>\<open>oneof\<close> fields: \<^verbatim>\<open>nil\<close>, or zero, when another case is set.\<close>

definition GetFixedDelay :: "'d HTTPFaultInjection_Delay \<Rightarrow> 'd option" where
  "GetFixedDelay delay = (case HttpDelayType delay of Some (FixedDelay d) \<Rightarrow> d | _ \<Rightarrow> None)"

definition GetExponentialDelay :: "'d HTTPFaultInjection_Delay \<Rightarrow> 'd option" where
  "GetExponentialDelay delay =
     (case HttpDelayType delay of Some (ExponentialDelay d) \<Rightarrow> d | _ \<Rightarrow> None)"

definition GetThrottleAfterPeriod :: "'d L4FaultInjection_Throttle \<Rightarrow> 'd option" where
  "GetThrottleAfterPeriod throttle =
     (case ThrottleAfter throttle of Some (ThrottleAfterPeriod d) \<Rightarrow> d | _ \<Rightarrow> None)"

definition GetThrottleAfterBytes :: "'d L4FaultInjection_Throttle \<Rightarrow> float" where
  "GetThrottleAfterBytes throttle =
     (case ThrottleAfter throttle of Some (ThrottleAfterBytes b) \<Rightarrow> b | _ \<Rightarrow> Finite 0)"

text \<open>\<^verbatim>\<open>ValidateHTTPHeaderName\<close> and \<^verbatim>\<open>ValidateStringMatch\<close>.\<close>

definition ValidateHTTPHeaderName :: "'d ValidationEnv \<Rightarrow> string \<Rightarrow> error option" where
  "ValidateHTTPHeaderName env name =
     (if ToLower env name \<noteq> name then Some (Plain (Message ''must be in lower case'')) else None)"

definition ValidateStringMatch :: "StringMatch \<Rightarrow> error option" where
  "ValidateStringMatch match =
     (case MatchType match of
        Some m \<Rightarrow> None
      | None \<Rightarrow> Some (Plain UnrecognizedStringMatch))"

text \<open>
  \<^verbatim>\<open>ValidateIPv4Address\<close>, \<^verbatim>\<open>ValidateCIDRBlock\<close>, \<^verbatim>\<open>ValidateIPv4Subnet\<close> and
  \<^verbatim>\<open>ValidateSubnet\<close>. The address check returns at the first octet that fails; the
  subnet check returns at once when there are more than two parts.
\<close>

definition ValidateIPv4Address :: "'d ValidationEnv \<Rightarrow> string \<Rightarrow> error option" where
  "ValidateIPv4Address env addr =
     (let octets = Split addr CHR ''.''
      in if length octets \<noteq> 4 then Some (Plain (NotValidIPAddress addr))
         else
           (case find (\<lambda>octet. case Atoi env octet of
                                  None \<Rightarrow> True
                                | Some n \<Rightarrow> n < 0 \<or> n > 255) octets of
              Some octet \<Rightarrow> Some (Plain (NotValidIPAddress addr))
            | None \<Rightarrow> None))"

definition ValidateCIDRBlock :: "'d ValidationEnv \<Rightarrow> string \<Rightarrow> error option" where
  "ValidateCIDRBlock env cidr =
     (case Atoi env cidr of
        None \<Rightarrow> Some (Plain (NotValidCIDRBlock cidr))
      | Some bits \<Rightarrow>
          (if bits \<le> 0 \<or> bits > 32 then Some (Plain (NotValidCIDRBlock cidr)) else None))"

definition ValidateIPv4Subnet :: "'d ValidationEnv \<Rightarrow> string \<Rightarrow> error option" where
  "ValidateIPv4Subnet env subnet =
     (let parts = Split subnet CHR ''/''
      in if length parts > 2 then Some (Plain (NotValidCIDRNotation subnet))
         else
           (let errs = None;
                errs = (if length parts = 2
                        then (case ValidateCIDRBlock env (parts ! 1) of
                                Some err \<Rightarrow> Append errs err | None \<Rightarrow> errs)
                        else errs);
                errs = (case ValidateIPv4Address env (parts ! 0) of
                          Some err \<Rightarrow> Append errs err | None \<Rightarrow> errs)
            in errs))"

definition ValidateSubnet :: "'d ValidationEnv \<Rightarrow> string \<Rightarrow> error option" where
  "ValidateSubnet env subnet = ValidateIPv4Subnet env subnet"

definition ValidateL4MatchAttributes :: "'d ValidationEnv \<Rightarrow> L4MatchAttributes \<Rightarrow> error option" where
  "ValidateL4MatchAttributes env ma =
     (let errs = None;
          errs = fold (\<lambda>subnet errs.
                         case ValidateSubnet env subnet of
                           Some err \<Rightarrow> Append errs err | None \<Rightarrow> errs)
                      (SourceSubnet ma) errs;
          errs = fold (\<lambda>subnet errs.
                         case ValidateSubnet env subnet of
                           Some err \<Rightarrow> Append errs err | None \<Rightarrow> errs)
                      (DestinationSubnet ma) errs
      in errs)"

text \<open>\<^verbatim>\<open>ValidateMatchCondition\<close>.\<close>

definition ValidateMatchCondition :: "'d ValidationEnv \<Rightarrow> MatchCondition \<Rightarrow> error option" where
  "ValidateMatchCondition env mc =
     (let errs = None;
          errs = (if Source mc \<noteq> []
                  then (case ValidateFQDN (Source mc) of
                          Some err \<Rightarrow> Append errs err | None \<Rightarrow> errs)
                  else errs);
          errs = (case Validate_Tags (SourceTags mc) of
                    Some err \<Rightarrow> Append errs err | None \<Rightarrow> errs);
          errs = (case Tcp mc of
                    Some tcp \<Rightarrow>
                      (case ValidateL4MatchAttributes env tcp of
                         Some err \<Rightarrow> Append errs err | None \<Rightarrow> errs)
                  | None \<Rightarrow> errs);
          errs = (case Udp mc of
                    Some udp \<Rightarrow>
                      (let errs = (case ValidateL4MatchAttributes env udp of
                                     Some err \<Rightarrow> Append errs err | None \<Rightarrow> errs)
                       in Append errs (Plain (Message ''Istio does not support UDP protocol yet'')))
                  | None \<Rightarrow> errs);
          errs = fold (\<lambda>(name, value) errs.
                    (let errs = (case ValidateHTTPHeaderName env name of
                                   Some err \<Rightarrow> Append errs (Prefix err (HeaderNameInvalid name))
                                 | None \<Rightarrow> errs);
                         errs = (case ValidateStringMatch value of
                                   Some err \<Rightarrow> Append errs (Prefix err (HeaderValueInvalid name))
                                 | None \<Rightarrow> errs)
                     in if name = HeaderURI env
                        then (case MatchType value of
                                Some (StringMatch_Exact exact) \<Rightarrow>
                                  (if exact = []
                                   then Append errs (Plain (ExactHeaderValueEmpty (HeaderURI env)))
                                   else errs)
                              | Some (StringMatch_Prefix pre) \<Rightarrow>
                                  (if pre = []
                                   then Append errs (Plain (PrefixHeaderValueEmpty (HeaderURI env)))
                                   else errs)
                              | Some (StringMatch_Regex regex) \<Rightarrow>
                                  (if regex = []
                                   then Append errs (Plain (RegexHeaderValueEmpty (HeaderURI env)))
                                   else errs)
                              | None \<Rightarrow> errs)
                        else errs))
                  (HttpHeaders mc) errs
      in errs)"

text \<open>
  \<^verbatim>\<open>ValidateFloatPercent\<close> and \<^verbatim>\<open>ValidateDuration\<close>. The duration check returns at the
  first check that fails; a millisecond is \<open>1000000\<close> nanoseconds. Where the remainder is
  taken the duration is positive, so that the remainders of Go and of HOL agree.
\<close>

definition ValidateFloatPercent :: "float \<Rightarrow> error option" where
  "ValidateFloatPercent val =
     (if floatLess val (Finite 0) \<or> floatLess (Finite 100) val
      then Some (Plain MustBeInRange0To100) else None)"

definition ValidateDuration :: "'d ValidationEnv \<Rightarrow> 'd option \<Rightarrow> error option" where
  "ValidateDuration env pd =
     (case Duration env pd of
        Inl err \<Rightarrow> Some (Plain (OtherError err))
      | Inr dur \<Rightarrow>
          (if dur < 1000000 then Some (Plain (Message ''duration must be greater than 1ms''))
           else if dur mod 1000000 \<noteq> 0
           then Some (Plain (Message ''Istio only supports durations to ms precision''))
           else None))"

text \<open>\<^verbatim>\<open>ValidateHTTPTimeout\<close> and \<^verbatim>\<open>ValidateHTTPRetries\<close>.\<close>

definition ValidateHTTPTimeout :: "'d ValidationEnv \<Rightarrow> 'd HTTPTimeout \<Rightarrow> error option" where
  "ValidateHTTPTimeout env timeout =
     (let errs = None;
          errs = (case SimpleTimeout timeout of
                    Some simple \<Rightarrow>
                      (case ValidateDuration env (Timeout simple) of
                         Some err \<Rightarrow> Append errs (Prefix err (Literal ''httpTimeout invalid: ''))
                       | None \<Rightarrow> errs)
                  | None \<Rightarrow> errs)
      in errs)"

definition ValidateHTTPRetries :: "'d ValidationEnv \<Rightarrow> 'd HTTPRetry \<Rightarrow> error option" where
  "ValidateHTTPRetries env retry =
     (let errs = None;
          errs = (case SimpleRetry retry of
                    Some simple \<Rightarrow>
                      (let errs = (if Attempts simple < 0
                                   then Append errs (Plain (Message ''attempts must be in range [0..]''))
                                   else errs)
                       in case ValidateDuration env (PerTryTimeout simple) of
                            Some err \<Rightarrow> Append errs (Prefix err (Literal ''perTryTimeout invalid: ''))
                          | None \<Rightarrow> errs)
                  | None \<Rightarrow> errs)
      in errs)"

text \<open>
  \<^verbatim>\<open>ValidateDelay\<close>, \<^verbatim>\<open>ValidateAbortHTTPStatus\<close>, \<^verbatim>\<open>ValidateAbort\<close> and
  \<^verbatim>\<open>ValidateHTTPFault\<close>.
\<close>

definition ValidateDelay :: "'d ValidationEnv \<Rightarrow> 'd HTTPFaultInjection_Delay \<Rightarrow> error option" where
  "ValidateDelay env delay =
     (let errs = None;
          errs = (case ValidateFloatPercent (Percent_delay delay) of
                    Some err \<Rightarrow> Append errs (Prefix err (Literal ''percent invalid: ''))
                  | None \<Rightarrow> errs);
          errs = (case ValidateDuration env (GetFixedDelay delay) of
                    Some err \<Rightarrow> Append errs (Prefix err (Literal ''fixedDelay invalid:''))
                  | None \<Rightarrow> errs);
          errs = (case GetExponentialDelay delay of
                    Some d \<Rightarrow>
                      (let errs = (case ValidateDuration env (GetExponentialDelay delay) of
                                     Some err \<Rightarrow>
                                       Append errs (Prefix err (Literal ''exponentialDelay invalid: ''))
                                   | None \<Rightarrow> errs)
                       in Append errs (Plain (Message ''Istio does not support exponentialDelay yet'')))
                  | None \<Rightarrow> errs)
      in errs)"

definition ValidateAbortHTTPStatus :: "int \<Rightarrow> error option" where
  "ValidateAbortHTTPStatus httpStatus =
     (let errs = None;
          errs = (if httpStatus < 0 \<or> httpStatus > 600
                  then Append errs (Plain (InvalidAbortHTTPStatus httpStatus)) else errs)
      in errs)"

definition ValidateAbort :: "HTTPFaultInjection_Abort \<Rightarrow> error option" where
  "ValidateAbort abort =
     (let errs = None;
          errs = (case ValidateFloatPercent (Percent_abort abort) of
                    Some err \<Rightarrow> Append errs (Prefix err (Literal ''percent invalid: ''))
                  | None \<Rightarrow> errs);
          errs = (case ErrorType abort of
                    Some (GrpcStatus g) \<Rightarrow>
                      Append errs (Plain (Message ''Istio does not support gRPC fault injection yet''))
                  | Some (Http2Error h) \<Rightarrow> errs
                  | Some (HttpStatus s) \<Rightarrow>
                      (case ValidateAbortHTTPStatus s of
                         Some err \<Rightarrow> Append errs err | None \<Rightarrow> errs)
                  | None \<Rightarrow> errs)
      in errs)"

definition ValidateHTTPFault :: "'d ValidationEnv \<Rightarrow> 'd HTTPFaultInjection \<Rightarrow> error option" where
  "ValidateHTTPFault env fault =
     (let errs = None;
          errs = (case Delay fault of
                    Some delay \<Rightarrow>
                      (case ValidateDelay env delay of
                         Some err \<Rightarrow> Append errs err | None \<Rightarrow> errs)
                  | None \<Rightarrow> errs);
          errs = (case Abort fault of
                    Some abort \<Rightarrow>
                      (case ValidateAbort abort of
                         Some err \<Rightarrow> Append errs err | None \<Rightarrow> errs)
                  | None \<Rightarrow> errs)
      in errs)"

text \<open>\<^verbatim>\<open>ValidateTerminate\<close>, \<^verbatim>\<open>ValidateThrottle\<close> and \<^verbatim>\<open>ValidateL4Fault\<close>.\<close>

definition ValidateTerminate :: "L4FaultInjection_Terminate \<Rightarrow> error option" where
  "ValidateTerminate terminate =
     (let errs = None;
          errs = (case ValidateFloatPercent (Percent_terminate terminate) of
                    Some err \<Rightarrow> Append errs (Prefix err (Literal ''terminate percent invalid: ''))
                  | None \<Rightarrow> errs)
      in errs)"

definition ValidateThrottle :: "'d ValidationEnv \<Rightarrow> 'd L4FaultInjection_Throttle \<Rightarrow> error option" where
  "ValidateThrottle env throttle =
     (let errs = None;
          errs = (case ValidateFloatPercent (Percent_throttle throttle) of
                    Some err \<Rightarrow> Append errs (Prefix err (Literal ''throttle percent invalid: ''))
                  | None \<Rightarrow> errs);
          errs = (if DownstreamLimitBps throttle < 0
                  then Append errs (Plain (Message ''downstreamLimitBps invalid'')) else errs);
          errs = (if UpstreamLimitBps throttle < 0
                  then Append errs (Plain (Message ''upstreamLimitBps invalid'')) else errs);
          errs = (case ValidateDuration env (GetThrottleAfterPeriod throttle) of
                    Some err \<Rightarrow> Append errs (Plain (Message ''throttleAfterPeriod invalid''))
                  | None \<Rightarrow> errs);
          errs = (if floatLess (GetThrottleAfterBytes throttle) (Finite 0)
                  then Append errs (Plain (Message ''throttleAfterBytes invalid'')) else errs)
      in errs)"

definition ValidateL4Fault :: "'d ValidationEnv \<Rightarrow> 'd L4FaultInjection \<Rightarrow> error option" where
  "ValidateL4Fault env fault =
     (let errs = None;
          errs = (case Terminate fault of
                    Some terminate \<Rightarrow>
                      (let errs = (case ValidateTerminate terminate of
                                     Some err \<Rightarrow> Append errs err | None \<Rightarrow> errs)
                       in Append errs (Plain (Message ''Istio does not support the terminate fault yet'')))
                  | None \<Rightarrow> errs);
          errs = (case Throttle fault of
                    Some throttle \<Rightarrow>
                      (case ValidateThrottle env throttle of
                         Some err \<Rightarrow> Append errs err | None \<Rightarrow> errs)
                  | None \<Rightarrow> errs)
      in errs)"

text \<open>
  The ingress rule and the destination policy of the API package, as far as their
  validators read them. The load balancing policy is not looked at; it is the unit type.
\<close>

record IngressRule =
  Name_ingress :: string
  Destination_ingress :: string

record 'd CircuitBreaker_SimpleCircuitBreakerPolicy =
  MaxConnections :: int
  HttpMaxPendingRequests :: int
  HttpMaxRequests :: int
  SleepWindow :: "'d option"
  HttpConsecutiveErrors :: int
  HttpDetectionInterval :: "'d option"
  HttpMaxRequestsPerConnection :: int
  HttpMaxEjectionPercent :: "32 word"

record 'd CircuitBreaker =
  SimpleCb :: "'d CircuitBreaker_SimpleCircuitBreakerPolicy option"

record 'd DestinationVersionPolicy =
  Tags_policy :: "(string \<times> string) list"
  LoadBalancing :: "unit option"
  CircuitBreaker :: "'d CircuitBreaker option"

record 'd DestinationPolicy =
  Destination_policy :: string
  Policy :: "'d DestinationVersionPolicy list"

text \<open>
  A \<^verbatim>\<open>proto.Message\<close>, the argument of the validators of the kinds: a routing rule, an
  ingress rule, a destination policy, or a message of another type. The cast of each
  validator fails on the messages of the other types.
\<close>

datatype ('d, 'o) Message =
    RouteRuleMessage "'d RouteRule"
  | IngressRuleMessage IngressRule
  | DestinationPolicyMessage "'d DestinationPolicy"
  | OtherMessage 'o

text \<open>\<^verbatim>\<open>ValidateRouteRule\<close>.\<close>

definition ValidateRouteRule ::
  "'d ValidationEnv \<Rightarrow> ('d, 'o) Message \<Rightarrow> error option" where
  "ValidateRouteRule env msg =
     (case msg of
        RouteRuleMessage v \<Rightarrow>
     (let errs = None;
          errs = (if Name v = [] then Append errs (Plain RouteRuleMustHaveName) else errs);
          errs = (if \<not> IsDNS1123Label (Name v)
                  then Append errs (Plain RouteRuleNameMustBeLabel) else errs);
          errs = (if Destination v = []
                  then Append errs (Plain RouteRuleMustHaveDestination) else errs);
          errs = (case ValidateFQDN (Destination v) of
                    Some err \<Rightarrow> Append errs err | None \<Rightarrow> errs);
          errs = (case Match v of
                    Some mc \<Rightarrow>
                      (case ValidateMatchCondition env mc of
                         Some err \<Rightarrow> Append errs err | None \<Rightarrow> errs)
                  | None \<Rightarrow> errs);
          errs = (case Rewrite v of
                    Some rw \<Rightarrow>
                      (if Uri_rewrite rw = [] \<and> Authority_rewrite rw = []
                       then Append errs (Plain RewriteMustSpecify) else errs)
                  | None \<Rightarrow> errs);
          errs = (case Redirect v of
                    Some rd \<Rightarrow>
                      (let errs = (if (case Route v of Some rs \<Rightarrow> length rs > 0 | None \<Rightarrow> False)
                                   then Append errs (Plain BothRouteAndRedirect) else errs);
                           errs = (if HttpFault v \<noteq> None
                                   then Append errs (Plain BothFaultAndRedirect) else errs)
                       in if Authority_redirect rd = [] \<and> Uri_redirect rd = []
                          then Append errs (Plain RedirectMustSpecify) else errs)
                  | None \<Rightarrow> errs);
          errs = (if Redirect v \<noteq> None \<and> Rewrite v \<noteq> None
                  then Append errs (Plain BothRewriteAndRedirect) else errs);
          errs = (case Route v of
                    Some rs \<Rightarrow>
                      (let errs = fold (\<lambda>destWeight errs.
                                          case ValidateDestinationWeight destWeight of
                                            Some err \<Rightarrow> Append errs err | None \<Rightarrow> errs)
                                       rs errs
                       in case ValidateWeights rs (Destination v) of
                            Some err \<Rightarrow> Append errs err | None \<Rightarrow> errs)
                  | None \<Rightarrow> errs);
          errs = (case HttpReqTimeout v of
                    Some t \<Rightarrow>
                      (case ValidateHTTPTimeout env t of
                         Some err \<Rightarrow> Append errs err | None \<Rightarrow> errs)
                  | None \<Rightarrow> errs);
          errs = (case HttpReqRetries v of
                    Some r \<Rightarrow>
                      (case ValidateHTTPRetries env r of
                         Some err \<Rightarrow> Append errs err | None \<Rightarrow> errs)
                  | None \<Rightarrow> errs);
          errs = (case HttpFault v of
                    Some f \<Rightarrow>
                      (case ValidateHTTPFault env f of
                         Some err \<Rightarrow> Append errs err | None \<Rightarrow> errs)
                  | None \<Rightarrow> errs);
          errs = (case L4Fault v of
                    Some f \<Rightarrow>
                      (let errs = (case ValidateL4Fault env f of
                                     Some err \<Rightarrow> Append errs err | None \<Rightarrow> errs)
                       in Append errs (Plain L4FaultsNotImplemented))
                  | None \<Rightarrow> errs)
      in errs)
      | _ \<Rightarrow> Some (Plain CannotCastToRoutingRule))"

text \<open>\<^verbatim>\<open>ValidateIngressRule\<close>.\<close>

definition ValidateIngressRule :: "('d, 'o) Message \<Rightarrow> error option" where
  "ValidateIngressRule msg =
     (case msg of
        IngressRuleMessage v \<Rightarrow>
     (let errs = None;
          errs = (if Name_ingress v = []
                  then Append errs (Plain (Message ''ingress rule must have a name'')) else errs);
          errs = (if \<not> IsDNS1123Label (Name_ingress v)
                  then Append errs (Plain (Message ''ingress rule name must be a host name label''))
                  else errs);
          errs = (if Destination_ingress v = []
                  then Append errs (Plain (Message ''ingress rule must have a destination service''))
                  else errs);
          errs = (case ValidateFQDN (Destination_ingress v) of
                    Some err \<Rightarrow> Append errs err | None \<Rightarrow> errs)
      in errs)
      | _ \<Rightarrow> Some (Plain (Message ''cannot cast to ingress rule'')))"

text \<open>
  \<^verbatim>\<open>ValidateLoadBalancing\<close>, \<^verbatim>\<open>ValidateCircuitBreaker\<close> and
  \<^verbatim>\<open>ValidateDestinationPolicy\<close>.
\<close>

definition ValidateLoadBalancing :: "unit \<Rightarrow> error option" where
  "ValidateLoadBalancing lb = None"

definition ValidateCircuitBreaker :: "'d ValidationEnv \<Rightarrow> 'd CircuitBreaker \<Rightarrow> error option" where
  "ValidateCircuitBreaker env cb =
     (let errs = None;
          errs = (case SimpleCb cb of
                    Some simple \<Rightarrow>
     (let errs = (if MaxConnections simple < 0
                  then Append errs (Plain (Message ''circuitBreak maxConnections must be in range [0..]''))
                  else errs);
          errs = (if HttpMaxPendingRequests simple < 0
                  then Append errs
                         (Plain (Message ''circuitBreaker maxPendingRequests must be in range [0..]''))
                  else errs);
          errs = (if HttpMaxRequests simple < 0
                  then Append errs (Plain (Message ''circuitBreaker maxRequests must be in range [0..]''))
                  else errs);
          errs = (case ValidateDuration env (SleepWindow simple) of
                    Some err \<Rightarrow>
                      Append errs (Plain (Message ''circuitBreaker sleepWindow must be in range [0..]''))
                  | None \<Rightarrow> errs);
          errs = (if HttpConsecutiveErrors simple < 0
                  then Append errs
                         (Plain (Message ''circuitBreaker httpConsecutiveErrors must be in range [0..]''))
                  else errs);
          errs = (case ValidateDuration env (HttpDetectionInterval simple) of
                    Some err \<Rightarrow>
                      Append errs
                        (Plain (Message ''circuitBreaker httpDetectionInterval must be in range [0..]''))
                  | None \<Rightarrow> errs);
          errs = (if HttpMaxRequestsPerConnection simple < 0
                  then Append errs
                         (Plain (Message
                            ''circuitBreaker httpMaxRequestsPerConnection must be in range [0..]''))
                  else errs)
      in case ValidatePercent (HttpMaxEjectionPercent simple) of
           Some err \<Rightarrow>
             Append errs (Prefix err (Literal ''circuitBreaker httpMaxEjectionPercent invalid: ''))
         | None \<Rightarrow> errs)
                  | None \<Rightarrow> errs)
      in errs)"

definition ValidateDestinationPolicy ::
  "'d ValidationEnv \<Rightarrow> ('d, 'o) Message \<Rightarrow> error option" where
  "ValidateDestinationPolicy env msg =
     (case msg of
        DestinationPolicyMessage v \<Rightarrow>
     (let errs = None;
          errs = (if Destination_policy v = []
                  then Append errs
                         (Plain (Message
                            ''destination policy should have a valid service name in its destination field''))
                  else (case ValidateFQDN (Destination_policy v) of
                          Some err \<Rightarrow> Append errs err | None \<Rightarrow> errs));
          errs = fold (\<lambda>policy errs.
                    (let errs = (case Validate_Tags (Tags_policy policy) of
                                   Some err \<Rightarrow> Append errs err | None \<Rightarrow> errs);
                         errs = (case LoadBalancing policy of
                                   Some lb \<Rightarrow>
                                     (case ValidateLoadBalancing lb of
                                        Some err \<Rightarrow> Append errs err | None \<Rightarrow> errs)
                                 | None \<Rightarrow> errs);
                         errs = (case CircuitBreaker policy of
                                   Some cb \<Rightarrow>
                                     (case ValidateCircuitBreaker env cb of
                                        Some err \<Rightarrow> Append errs err | None \<Rightarrow> errs)
                                 | None \<Rightarrow> errs)
                     in errs))
                  (Policy v) errs
      in errs)
      | _ \<Rightarrow> Some (Plain (Message ''cannot cast to destination policy'')))"

section \<open>Notions of the specification and example data\<close>

text \<open>
  The walk of \<^verbatim>\<open>compareToCache\<close> on what is left of the two sequences behind the
  cursors, with equality of records in the place of \<^verbatim>\<open>reflect.DeepEqual\<close>; where the two
  agree on the records compared, the index loop computes it for the suffixes
  \<open>drop io oldRec\<close> and \<open>drop inn newRec\<close>.
\<close>

fun diffEvents :: "'p Config list \<Rightarrow> 'p Config list \<Rightarrow> ('p Config \<times> Event) list" where
  "diffEvents [] ns = map (\<lambda>c. (c, EventAdd)) ns"
| "diffEvents (v # os) [] = map (\<lambda>c. (c, EventDelete)) (v # os)"
| "diffEvents (v # os) (n # ns) =
     (if v = n then diffEvents os ns
      else if Key v = Key n then (n, EventUpdate) # diffEvents os ns
      else if Key v < Key n then (v, EventDelete) # diffEvents os (n # ns)
      else (n, EventAdd) # diffEvents (v # os) ns)"

text \<open>
  Replaying events against a key-sorted sequence: an add inserts the new record at its key
  position and fails if the key is present; an update replaces the record of that key and
  fails if there is none; a delete removes the record of that key and fails if the
  previous record is not there.
\<close>

fun replayEvent :: "'p Config \<times> Event \<Rightarrow> 'p Config list \<Rightarrow> 'p Config list option" where
  "replayEvent (c, EventAdd) xs =
     (if Key c \<in> Key ` set xs then None else Some (insort_key Key c xs))"
| "replayEvent (c, EventUpdate) xs =
     (if Key c \<in> Key ` set xs then Some (map (\<lambda>x. if Key x = Key c then c else x) xs) else None)"
| "replayEvent (c, EventDelete) xs =
     (if c \<in> set xs then Some (filter (\<lambda>x. Key x \<noteq> Key c) xs) else None)"

fun replay :: "('p Config \<times> Event) list \<Rightarrow> 'p Config list \<Rightarrow> 'p Config list option" where
  "replay [] xs = Some xs"
| "replay (ev # evs) xs = (case replayEvent ev xs of None \<Rightarrow> None | Some ys \<Rightarrow> replay evs ys)"

text \<open>A snapshot: sorted by key, keys pairwise different.\<close>

definition keySorted :: "'p Config list \<Rightarrow> bool" where
  "keySorted xs = sorted_wrt (<) (map Key xs)"

text \<open>The monitor after a number of ticks, each with the answers of the store at that tick.\<close>

definition ticks ::
  "'p Library \<Rightarrow> string list \<Rightarrow> ('e, 'p) ListFn list \<Rightarrow> 'p configsMonitor \<Rightarrow>
   'p configsMonitor" where
  "ticks lib IstioConfigTypes answers m =
     fold (UpdateConfigRecord lib IstioConfigTypes) answers m"

text \<open>
  What the documentation of \<^verbatim>\<open>sort.Slice\<close> promises: when the order is a strict
  weak order (irreflexive, transitive, and with it "not before"), the result has the
  records of the argument, each as often as there, and no record stands before one that
  the order puts before it.
\<close>

definition strictWeakOrder :: "('a \<Rightarrow> 'a \<Rightarrow> bool) \<Rightarrow> bool" where
  "strictWeakOrder lessFn =
     ((\<forall>a. \<not> lessFn a a) \<and> (\<forall>a b c. lessFn a b \<longrightarrow> lessFn b c \<longrightarrow> lessFn a c)
      \<and> (\<forall>a b c. \<not> lessFn a b \<longrightarrow> \<not> lessFn b c \<longrightarrow> \<not> lessFn a c))"

definition sortSliceSorts :: "'p Library \<Rightarrow> bool" where
  "sortSliceSorts lib =
     (\<forall>lessFn xs. strictWeakOrder lessFn \<longrightarrow>
        mset (sortSlice lib xs lessFn) = mset xs
        \<and> sorted_wrt (\<lambda>a b. \<not> lessFn b a) (sortSlice lib xs lessFn))"

text \<open>
  The kinds that one update cycle gets to: those before the first kind whose list call
  fails.
\<close>

definition listedKinds :: "string list \<Rightarrow> ('e, 'p) ListFn \<Rightarrow> string list" where
  "listedKinds IstioConfigTypes storeList =
     takeWhile (\<lambda>typ. \<not> isl (storeList typ)) IstioConfigTypes"

text \<open>
  Example libraries: one whose deep equality is equality, for payloads without floating
  point numbers, and one for a payload that is a single floating point field, where
  \<^verbatim>\<open>reflect.DeepEqual\<close> compares by \<^verbatim>\<open>==\<close>. Both sort by insertion.
\<close>

fun insertBy :: "('a \<Rightarrow> 'a \<Rightarrow> bool) \<Rightarrow> 'a \<Rightarrow> 'a list \<Rightarrow> 'a list" where
  "insertBy lessFn x [] = [x]"
| "insertBy lessFn x (y # ys) = (if lessFn x y then x # y # ys else y # insertBy lessFn x ys)"

definition insertionSort :: "'a list \<Rightarrow> ('a \<Rightarrow> 'a \<Rightarrow> bool) \<Rightarrow> 'a list" where
  "insertionSort xs lessFn = foldr (insertBy lessFn) xs []"

definition libExample :: "nat Library" where
  "libExample = \<lparr> reflectDeepEqual = (\<lambda>x y. x = y), sortSlice = insertionSort \<rparr>"

definition libFloat :: "float Library" where
  "libFloat = \<lparr> reflectDeepEqual = floatEqual, sortSlice = insertionSort \<rparr>"

definition cfgNaN :: "float Config" where
  "cfgNaN = \<lparr> Type = ''route-rule'', Key = ''a'', Revision = ''1'', Content = NaN \<rparr>"

definition cfg :: "string \<Rightarrow> string \<Rightarrow> nat \<Rightarrow> nat Config" where
  "cfg k r p = \<lparr> Type = ''route-rule'', Key = k, Revision = r, Content = p \<rparr>"

definition failingList :: "(string, nat) ListFn" where
  "failingList typ =
     (if typ = ''route-rule'' then Inl ''backend unavailable''
      else Inr [\<lparr> Type = typ, Key = ''k'', Revision = ''1'', Content = 0 \<rparr>])"

definition succeedingList :: "(string, nat) ListFn" where
  "succeedingList typ = Inr [cfg ''b'' ''1'' 0, cfg ''a'' ''1'' 0]"

text \<open>A controller after a number of \<^verbatim>\<open>RegisterEventHandler\<close> calls, and example data.\<close>

definition registerAll ::
  "('i, 'mesh, 'p, 'x) IngressEnv \<Rightarrow> (string \<times> ('p Config \<Rightarrow> Event \<Rightarrow> 'w \<Rightarrow> 'w)) list \<Rightarrow>
   ('i, 'mesh, 'x, 'w) controller \<Rightarrow> ('i, 'mesh, 'x, 'w) controller" where
  "registerAll env regs c = fold (\<lambda>(typ, f) c. RegisterEventHandler env c typ f) regs c"

definition envExample :: "(string list, unit, nat, unit) IngressEnv" where
  "envExample =
     \<lparr> IngressRuleType = ''ingress-rule'',
       shouldProcessIngress = (\<lambda>m i. True),
       convertIngress = (\<lambda>i suffix. map (\<lambda>k. (k, length k)) i),
       decodeIngressRuleName = (\<lambda>key. Inr (key, ''default'')),
       KeyFunc = (\<lambda>name namespace. name),
       GetResourceVersion = (\<lambda>i. ''7'') \<rparr>"

definition informerExample :: "bool \<Rightarrow> (string list, unit) Informer" where
  "informerExample synced =
     \<lparr> HasSynced = synced,
       GetByKey = (\<lambda>k. Inr (if k = ''web'' then Some [''web''] else None)),
       ListStore = [[''web'']] \<rparr>"

definition recordEvent :: "nat Config \<Rightarrow> Event \<Rightarrow> (nat Config \<times> Event) list \<Rightarrow> (nat Config \<times> Event) list" where
  "recordEvent c e w = w @ [(c, e)]"

definition controllerExample :: "(string list, unit, unit, (nat Config \<times> Event) list) controller" where
  "controllerExample =
     registerAll envExample [(''ingress-rule'', recordEvent)]
       (NewController (informerExample False) () \<lparr> Namespace = ''default'', DomainSuffix = ''cluster.local'' \<rparr>)"

text \<open>The sum of the weights as integers, and a destination with a weight only.\<close>

definition weightSum :: "DestinationWeight list \<Rightarrow> int" where
  "weightSum routes = sum_list (map (\<lambda>destWeight. sint (Weight destWeight)) routes)"

definition weighted :: "32 word \<Rightarrow> DestinationWeight" where
  "weighted w = \<lparr> Destination_dw = [], Tags = [], Weight = w \<rparr>"

text \<open>
  The violations of a value, rule by rule: for each validator, what each of its checks
  reports on its own, in the order of the checks, and with it all that the validators it
  calls report. A validator that aggregates returns exactly these; \<^verbatim>\<open>ValidateFQDN\<close>,
  \<^verbatim>\<open>ValidateIPv4Address\<close> and \<^verbatim>\<open>ValidateDuration\<close> return the first of them only,
  which is \<open>take 1\<close> of the list.
\<close>

definition fqdnViolations :: "string \<Rightarrow> verror list" where
  "fqdnViolations fqdn =
     (if length fqdn > 255 then [DomainNameTooLong fqdn] else []) @
     (if length fqdn = 0 then [EmptyDomainName] else []) @
     map (DomainNameInvalidLabel fqdn)
       (filter (\<lambda>label. \<not> IsDNS1123Label label) (Split fqdn CHR ''.''))"

definition tagsViolations :: "(string \<times> string) list \<Rightarrow> verror list" where
  "tagsViolations t =
     concat (map (\<lambda>(k, v). (if \<not> tagRegexp k then [InvalidTagKey k] else []) @
                            (if \<not> tagRegexp v then [InvalidTagValue v] else [])) t)"

definition percentViolations :: "32 word \<Rightarrow> verror list" where
  "percentViolations val = (if sint val < 0 \<or> sint val > 100 then [MustBeInRange0To100] else [])"

definition floatPercentViolations :: "float \<Rightarrow> verror list" where
  "floatPercentViolations val =
     (if floatLess val (Finite 0) \<or> floatLess (Finite 100) val then [MustBeInRange0To100] else [])"

definition destinationWeightViolations :: "DestinationWeight \<Rightarrow> verror list" where
  "destinationWeightViolations dw =
     (if Destination_dw dw \<noteq> [] then take 1 (fqdnViolations (Destination_dw dw)) else []) @
     tagsViolations (Tags dw) @
     map (Prefixed (Literal ''weight invalid: '')) (percentViolations (Weight dw))"

definition invalidOctet :: "'d ValidationEnv \<Rightarrow> string \<Rightarrow> bool" where
  "invalidOctet env octet = (case Atoi env octet of None \<Rightarrow> True | Some n \<Rightarrow> n < 0 \<or> n > 255)"

definition ipv4AddressViolations :: "'d ValidationEnv \<Rightarrow> string \<Rightarrow> verror list" where
  "ipv4AddressViolations env addr =
     (if length (Split addr CHR ''.'') \<noteq> 4 then [NotValidIPAddress addr] else []) @
     map (\<lambda>octet. NotValidIPAddress addr) (filter (invalidOctet env) (Split addr CHR ''.''))"

definition cidrBlockViolations :: "'d ValidationEnv \<Rightarrow> string \<Rightarrow> verror list" where
  "cidrBlockViolations env cidr =
     (case Atoi env cidr of
        None \<Rightarrow> [NotValidCIDRBlock cidr]
      | Some bits \<Rightarrow> (if bits \<le> 0 \<or> bits > 32 then [NotValidCIDRBlock cidr] else []))"

text \<open>
  A subnet with more than two parts has the one violation of the notation:
  \<^verbatim>\<open>ValidateIPv4Subnet\<close> does not look at the parts then.
\<close>

definition subnetViolations :: "'d ValidationEnv \<Rightarrow> string \<Rightarrow> verror list" where
  "subnetViolations env subnet =
     (if length (Split subnet CHR ''/'') > 2 then [NotValidCIDRNotation subnet]
      else (if length (Split subnet CHR ''/'') = 2
            then cidrBlockViolations env (Split subnet CHR ''/'' ! 1) else []) @
           take 1 (ipv4AddressViolations env (Split subnet CHR ''/'' ! 0)))"

definition l4MatchAttributesViolations :: "'d ValidationEnv \<Rightarrow> L4MatchAttributes \<Rightarrow> verror list" where
  "l4MatchAttributesViolations env ma =
     concat (map (subnetViolations env) (SourceSubnet ma)) @
     concat (map (subnetViolations env) (DestinationSubnet ma))"

definition httpHeaderNameViolations :: "'d ValidationEnv \<Rightarrow> string \<Rightarrow> verror list" where
  "httpHeaderNameViolations env name =
     (if ToLower env name \<noteq> name then [Message ''must be in lower case''] else [])"

definition stringMatchViolations :: "StringMatch \<Rightarrow> verror list" where
  "stringMatchViolations match =
     (case MatchType match of Some m \<Rightarrow> [] | None \<Rightarrow> [UnrecognizedStringMatch])"

definition matchConditionViolations :: "'d ValidationEnv \<Rightarrow> MatchCondition \<Rightarrow> verror list" where
  "matchConditionViolations env mc =
     (if Source mc \<noteq> [] then take 1 (fqdnViolations (Source mc)) else []) @
     tagsViolations (SourceTags mc) @
     (case Tcp mc of None \<Rightarrow> [] | Some tcp \<Rightarrow> l4MatchAttributesViolations env tcp) @
     (case Udp mc of
        None \<Rightarrow> []
      | Some udp \<Rightarrow>
          l4MatchAttributesViolations env udp @ [Message ''Istio does not support UDP protocol yet'']) @
     concat (map (\<lambda>(name, value).
                    map (Prefixed (HeaderNameInvalid name)) (httpHeaderNameViolations env name) @
                    map (Prefixed (HeaderValueInvalid name)) (stringMatchViolations value) @
                    (if name = HeaderURI env
                     then (case MatchType value of
                             None \<Rightarrow> []
                           | Some (StringMatch_Exact exact) \<Rightarrow>
                               (if exact = [] then [ExactHeaderValueEmpty (HeaderURI env)] else [])
                           | Some (StringMatch_Prefix pre) \<Rightarrow>
                               (if pre = [] then [PrefixHeaderValueEmpty (HeaderURI env)] else [])
                           | Some (StringMatch_Regex regex) \<Rightarrow>
                               (if regex = [] then [RegexHeaderValueEmpty (HeaderURI env)] else []))
                     else []))
                 (HttpHeaders mc))"

definition durationViolations :: "'d ValidationEnv \<Rightarrow> 'd option \<Rightarrow> verror list" where
  "durationViolations env pd =
     (case Duration env pd of
        Inl err \<Rightarrow> [OtherError err]
      | Inr dur \<Rightarrow>
          (if dur < 1000000 then [Message ''duration must be greater than 1ms''] else []) @
          (if dur mod 1000000 \<noteq> 0
           then [Message ''Istio only supports durations to ms precision''] else []))"

definition httpTimeoutViolations :: "'d ValidationEnv \<Rightarrow> 'd HTTPTimeout \<Rightarrow> verror list" where
  "httpTimeoutViolations env timeout =
     (case SimpleTimeout timeout of
        None \<Rightarrow> []
      | Some simple \<Rightarrow>
          map (Prefixed (Literal ''httpTimeout invalid: ''))
            (take 1 (durationViolations env (Timeout simple))))"

definition httpRetriesViolations :: "'d ValidationEnv \<Rightarrow> 'd HTTPRetry \<Rightarrow> verror list" where
  "httpRetriesViolations env retry =
     (case SimpleRetry retry of
        None \<Rightarrow> []
      | Some simple \<Rightarrow>
          (if Attempts simple < 0 then [Message ''attempts must be in range [0..]''] else []) @
          map (Prefixed (Literal ''perTryTimeout invalid: ''))
            (take 1 (durationViolations env (PerTryTimeout simple))))"

definition delayViolations :: "'d ValidationEnv \<Rightarrow> 'd HTTPFaultInjection_Delay \<Rightarrow> verror list" where
  "delayViolations env delay =
     map (Prefixed (Literal ''percent invalid: '')) (floatPercentViolations (Percent_delay delay)) @
     map (Prefixed (Literal ''fixedDelay invalid:''))
       (take 1 (durationViolations env (GetFixedDelay delay))) @
     (case GetExponentialDelay delay of
        None \<Rightarrow> []
      | Some d \<Rightarrow>
          map (Prefixed (Literal ''exponentialDelay invalid: ''))
            (take 1 (durationViolations env (GetExponentialDelay delay))) @
          [Message ''Istio does not support exponentialDelay yet''])"

definition abortHTTPStatusViolations :: "int \<Rightarrow> verror list" where
  "abortHTTPStatusViolations httpStatus =
     (if httpStatus < 0 \<or> httpStatus > 600 then [InvalidAbortHTTPStatus httpStatus] else [])"

definition abortViolations :: "HTTPFaultInjection_Abort \<Rightarrow> verror list" where
  "abortViolations abort =
     map (Prefixed (Literal ''percent invalid: '')) (floatPercentViolations (Percent_abort abort)) @
     (case ErrorType abort of
        None \<Rightarrow> []
      | Some (GrpcStatus g) \<Rightarrow> [Message ''Istio does not support gRPC fault injection yet'']
      | Some (Http2Error h) \<Rightarrow> []
      | Some (HttpStatus s) \<Rightarrow> abortHTTPStatusViolations s)"

definition httpFaultViolations :: "'d ValidationEnv \<Rightarrow> 'd HTTPFaultInjection \<Rightarrow> verror list" where
  "httpFaultViolations env fault =
     (case Delay fault of None \<Rightarrow> [] | Some delay \<Rightarrow> delayViolations env delay) @
     (case Abort fault of None \<Rightarrow> [] | Some abort \<Rightarrow> abortViolations abort)"

definition terminateViolations :: "L4FaultInjection_Terminate \<Rightarrow> verror list" where
  "terminateViolations terminate =
     map (Prefixed (Literal ''terminate percent invalid: ''))
       (floatPercentViolations (Percent_terminate terminate))"

text \<open>
  Where a validator replaces the error of the duration check by an error of its own, the
  violation is that the duration has a violation.
\<close>

definition throttleViolations :: "'d ValidationEnv \<Rightarrow> 'd L4FaultInjection_Throttle \<Rightarrow> verror list" where
  "throttleViolations env throttle =
     map (Prefixed (Literal ''throttle percent invalid: ''))
       (floatPercentViolations (Percent_throttle throttle)) @
     (if DownstreamLimitBps throttle < 0 then [Message ''downstreamLimitBps invalid''] else []) @
     (if UpstreamLimitBps throttle < 0 then [Message ''upstreamLimitBps invalid''] else []) @
     (if durationViolations env (GetThrottleAfterPeriod throttle) \<noteq> []
      then [Message ''throttleAfterPeriod invalid''] else []) @
     (if floatLess (GetThrottleAfterBytes throttle) (Finite 0)
      then [Message ''throttleAfterBytes invalid''] else [])"

definition l4FaultViolations :: "'d ValidationEnv \<Rightarrow> 'd L4FaultInjection \<Rightarrow> verror list" where
  "l4FaultViolations env fault =
     (case Terminate fault of
        None \<Rightarrow> []
      | Some terminate \<Rightarrow>
          terminateViolations terminate @ [Message ''Istio does not support the terminate fault yet'']) @
     (case Throttle fault of None \<Rightarrow> [] | Some throttle \<Rightarrow> throttleViolations env throttle)"

text \<open>
  The violations of a routing rule. The total of the weights is one rule, checked by
  \<^verbatim>\<open>ValidateWeights\<close>, which returns one error at most.
\<close>

definition routeRuleViolations :: "'d ValidationEnv \<Rightarrow> 'd RouteRule \<Rightarrow> verror list" where
  "routeRuleViolations env v =
     (if Name v = [] then [RouteRuleMustHaveName] else []) @
     (if \<not> IsDNS1123Label (Name v) then [RouteRuleNameMustBeLabel] else []) @
     (if Destination v = [] then [RouteRuleMustHaveDestination] else []) @
     take 1 (fqdnViolations (Destination v)) @
     (case Match v of None \<Rightarrow> [] | Some mc \<Rightarrow> matchConditionViolations env mc) @
     (case Rewrite v of
        None \<Rightarrow> []
      | Some rw \<Rightarrow>
          (if Uri_rewrite rw = [] \<and> Authority_rewrite rw = [] then [RewriteMustSpecify] else [])) @
     (case Redirect v of
        None \<Rightarrow> []
      | Some rd \<Rightarrow>
          (if (case Route v of Some rs \<Rightarrow> length rs > 0 | None \<Rightarrow> False)
           then [BothRouteAndRedirect] else []) @
          (if HttpFault v \<noteq> None then [BothFaultAndRedirect] else []) @
          (if Authority_redirect rd = [] \<and> Uri_redirect rd = [] then [RedirectMustSpecify] else [])) @
     (if Redirect v \<noteq> None \<and> Rewrite v \<noteq> None then [BothRewriteAndRedirect] else []) @
     (case Route v of
        None \<Rightarrow> []
      | Some rs \<Rightarrow>
          concat (map destinationWeightViolations rs) @
          errorsOf (ValidateWeights rs (Destination v))) @
     (case HttpReqTimeout v of None \<Rightarrow> [] | Some t \<Rightarrow> httpTimeoutViolations env t) @
     (case HttpReqRetries v of None \<Rightarrow> [] | Some r \<Rightarrow> httpRetriesViolations env r) @
     (case HttpFault v of None \<Rightarrow> [] | Some f \<Rightarrow> httpFaultViolations env f) @
     (case L4Fault v of
        None \<Rightarrow> []
      | Some f \<Rightarrow> l4FaultViolations env f @ [L4FaultsNotImplemented])"

text \<open>The violations of an ingress rule.\<close>

definition ingressRuleViolations :: "IngressRule \<Rightarrow> verror list" where
  "ingressRuleViolations v =
     (if Name_ingress v = [] then [Message ''ingress rule must have a name''] else []) @
     (if \<not> IsDNS1123Label (Name_ingress v)
      then [Message ''ingress rule name must be a host name label''] else []) @
     (if Destination_ingress v = []
      then [Message ''ingress rule must have a destination service''] else []) @
     take 1 (fqdnViolations (Destination_ingress v))"

text \<open>The violations of a circuit breaker and of a destination policy.\<close>

definition circuitBreakerViolations :: "'d ValidationEnv \<Rightarrow> 'd CircuitBreaker \<Rightarrow> verror list" where
  "circuitBreakerViolations env cb =
     (case SimpleCb cb of
        None \<Rightarrow> []
      | Some simple \<Rightarrow>
          (if MaxConnections simple < 0
           then [Message ''circuitBreak maxConnections must be in range [0..]''] else []) @
          (if HttpMaxPendingRequests simple < 0
           then [Message ''circuitBreaker maxPendingRequests must be in range [0..]''] else []) @
          (if HttpMaxRequests simple < 0
           then [Message ''circuitBreaker maxRequests must be in range [0..]''] else []) @
          (if durationViolations env (SleepWindow simple) \<noteq> []
           then [Message ''circuitBreaker sleepWindow must be in range [0..]''] else []) @
          (if HttpConsecutiveErrors simple < 0
           then [Message ''circuitBreaker httpConsecutiveErrors must be in range [0..]''] else []) @
          (if durationViolations env (HttpDetectionInterval simple) \<noteq> []
           then [Message ''circuitBreaker httpDetectionInterval must be in range [0..]''] else []) @
          (if HttpMaxRequestsPerConnection simple < 0
           then [Message ''circuitBreaker httpMaxRequestsPerConnection must be in range [0..]'']
           else []) @
          map (Prefixed (Literal ''circuitBreaker httpMaxEjectionPercent invalid: ''))
            (percentViolations (HttpMaxEjectionPercent simple)))"

definition loadBalancingViolations :: "unit \<Rightarrow> verror list" where
  "loadBalancingViolations lb = []"

definition destinationPolicyViolations ::
  "'d ValidationEnv \<Rightarrow> 'd DestinationPolicy \<Rightarrow> verror list" where
  "destinationPolicyViolations env v =
     (if Destination_policy v = []
      then [Message ''destination policy should have a valid service name in its destination field'']
      else take 1 (fqdnViolations (Destination_policy v))) @
     concat (map (\<lambda>policy.
                    tagsViolations (Tags_policy policy) @
                    (case LoadBalancing policy of
                       None \<Rightarrow> []
                     | Some lb \<Rightarrow> loadBalancingViolations lb) @
                    (case CircuitBreaker policy of
                       None \<Rightarrow> []
                     | Some cb \<Rightarrow> circuitBreakerViolations env cb))
                 (Policy v))"

text \<open>
  A validation step appends \<open>part\<close>: whatever errors were collected before it, after it
  they are followed by the errors \<open>part\<close>.
\<close>

definition appends :: "(error option \<Rightarrow> error option) \<Rightarrow> verror list \<Rightarrow> bool" where
  "appends f part = (\<forall>x. errorsOf (f x) = errorsOf x @ part)"

text \<open>
  What the checks of \<^verbatim>\<open>ConfigDescriptor.Validate\<close> report for the kind at position
  \<open>i\<close> of a descriptor; a duplicate is a name that a kind before it has.
\<close>

definition descriptorViolations ::
  "(string \<Rightarrow> bool) \<Rightarrow> 'm ConfigDescriptor \<Rightarrow> nat \<Rightarrow> verror list" where
  "descriptorViolations messageType descriptor i =
     (let v = descriptor ! i; before = take i descriptor
      in (if Key_schema v = None then [MissingKeyFunction (Type_schema v)] else []) @
         (if \<not> IsDNS1123Label (Type_schema v) then [InvalidType (Type_schema v)] else []) @
         (if \<not> IsDNS1123Label (Plural v) then [InvalidPlural (Type_schema v)] else []) @
         (if \<not> messageType (MessageName v) then [CannotDiscoverMessageType (MessageName v)] else []) @
         (if Type_schema v \<in> Type_schema ` set before then [DuplicateType (Type_schema v)] else []) @
         (if MessageName v \<in> MessageName ` set before
          then [DuplicateMessageType (MessageName v)] else []))"

text \<open>
  Example data: a message-name function, a kind, library functions (decimal numbers
  without a sign for \<^verbatim>\<open>Atoi\<close>, durations that are their number of nanoseconds) and a
  routing rule.
\<close>

definition messageNameExample :: "nat \<Rightarrow> string" where
  "messageNameExample m =
     (if m < 10 then ''istio.proxy.v1.config.RouteRule'' else ''istio.proxy.v1.config.IngressRule'')"

definition schemaExample :: "nat ProtoSchema" where
  "schemaExample =
     \<lparr> Type_schema = ''route-rule'',
       Plural = ''route-rules'',
       MessageName = ''istio.proxy.v1.config.RouteRule'',
       Validate_schema = (\<lambda>m. if m = 0 then Some (Plain (OtherError ''empty rule'')) else None),
       Key_schema = Some (\<lambda>m. ''key'') \<rparr>"

definition atoiExample :: "string \<Rightarrow> int option" where
  "atoiExample s =
     (if s \<noteq> [] \<and> list_all (\<lambda>c. CHR ''0'' \<le> c \<and> c \<le> CHR ''9'') s
      then Some (foldl (\<lambda>n c. 10 * n + (of_char c - 48)) 0 s) else None)"

definition toLowerExample :: "string \<Rightarrow> string" where
  "toLowerExample s =
     map (\<lambda>c. if CHR ''A'' \<le> c \<and> c \<le> CHR ''Z'' then char_of (of_char c + (32 :: nat)) else c) s"

definition validationEnvExample :: "int ValidationEnv" where
  "validationEnvExample =
     \<lparr> Atoi = atoiExample,
       ToLower = toLowerExample,
       Duration = (\<lambda>pd. case pd of None \<Rightarrow> Inl ''duration: nil Duration'' | Some n \<Rightarrow> Inr n),
       HeaderURI = ''uri'' \<rparr>"

definition ruleExample :: "string \<Rightarrow> string \<Rightarrow> int RouteRule" where
  "ruleExample n d =
     \<lparr> Name = n, Destination = d, Match = None, Rewrite = None, Redirect = None,
       Route = None, HttpReqTimeout = None, HttpReqRetries = None, HttpFault = None,
       L4Fault = None \<rparr>"

definition matchExample :: MatchCondition where
  "matchExample =
     \<lparr> Source = ''A'',
       SourceTags = [(''a b'', ''v'')],
       Tcp = Some \<lparr> SourceSubnet = [''1.2.3/40''], DestinationSubnet = [] \<rparr>,
       Udp = None,
       HttpHeaders = [(''uri'', \<lparr> MatchType = Some (StringMatch_Exact []) \<rparr>)] \<rparr>"

definition retryExample :: "int HTTPRetry" where
  "retryExample = \<lparr> SimpleRetry = Some \<lparr> Attempts = - 1, PerTryTimeout = Some 500 \<rparr> \<rparr>"

definition timeoutExample :: "int HTTPTimeout" where
  "timeoutExample = \<lparr> SimpleTimeout = Some \<lparr> Timeout = Some 500 \<rparr> \<rparr>"
section \<open>The polling monitor: proofs\<close>

lemma compareLoop_diffEvents:
  assumes "\<forall>a\<in>set oldRec. \<forall>b\<in>set newRec. DeepEqual lib a b = (a = b)"
  shows "compareLoop lib oldRec newRec io inn = diffEvents (drop io oldRec) (drop inn newRec)"
  using assms
proof (induction lib oldRec newRec io inn rule: compareLoop.induct)
  case (1 lib oldRec newRec io inn)
  show ?case
  proof (cases "io < length oldRec \<and> inn < length newRec")
    case True
    then have d: "drop io oldRec = oldRec ! io # drop (Suc io) oldRec"
      "drop inn newRec = newRec ! inn # drop (Suc inn) newRec"
      by (simp_all add: Cons_nth_drop_Suc)
    have e: "DeepEqual lib (oldRec ! io) (newRec ! inn) = (oldRec ! io = newRec ! inn)"
      using True "1.prems" by simp
    show ?thesis
      using True "1.IH" "1.prems" e
      by (subst compareLoop.simps) (simp add: d)
  next
    case False
    then show ?thesis
      by (subst compareLoop.simps) (cases "drop io oldRec", auto)
  qed
qed

lemma keySorted_Cons: "keySorted (x # xs) = ((\<forall>y\<in>set xs. Key x < Key y) \<and> keySorted xs)"
  by (auto simp: keySorted_def)

lemma keySorted_append:
  "keySorted (xs @ ys) = (keySorted xs \<and> keySorted ys \<and> (\<forall>x\<in>set xs. \<forall>y\<in>set ys. Key x < Key y))"
  by (auto simp: keySorted_def sorted_wrt_append)

lemma insort_between:
  "\<forall>x\<in>set pre. Key x < Key c \<Longrightarrow> \<forall>y\<in>set post. Key c < Key y \<Longrightarrow>
   insort_key Key c (pre @ post) = pre @ c # post"
proof (induction pre)
  case Nil
  then show ?case by (cases post) auto
next
  case (Cons p pre)
  then show ?case by auto
qed

lemma filter_key_out:
  "\<forall>x\<in>set xs. Key x \<noteq> k \<Longrightarrow> filter (\<lambda>x. Key x \<noteq> k) xs = xs"
  by (induction xs) auto

lemma map_key_out:
  "\<forall>x\<in>set xs. Key x \<noteq> Key c \<Longrightarrow> map (\<lambda>x. if Key x = Key c then c else x) xs = xs"
  by (induction xs) auto

lemma replay_adds:
  "keySorted (pre @ ns) \<Longrightarrow> replay (map (\<lambda>c. (c, EventAdd)) ns) pre = Some (pre @ ns)"
proof (induction ns arbitrary: pre)
  case Nil
  then show ?case by simp
next
  case (Cons n ns)
  from Cons.prems have lt: "\<forall>x\<in>set pre. Key x < Key n"
    by (auto simp: keySorted_append)
  then have notin: "Key n \<notin> Key ` set pre" by auto
  have ins: "insort_key Key n pre = pre @ [n]"
    using insort_between [of pre n "[]"] lt by simp
  have "keySorted ((pre @ [n]) @ ns)" using Cons.prems by simp
  from Cons.IH [OF this] show ?case using notin ins by simp
qed

lemma replay_deletes:
  "keySorted (pre @ os) \<Longrightarrow> replay (map (\<lambda>c. (c, EventDelete)) os) (pre @ os) = Some pre"
proof (induction os)
  case Nil
  then show ?case by simp
next
  case (Cons v os)
  from Cons.prems have a: "\<forall>x\<in>set pre. Key x \<noteq> Key v" "\<forall>x\<in>set os. Key x \<noteq> Key v"
    by (auto simp: keySorted_append keySorted_Cons)
  have f: "filter (\<lambda>x. Key x \<noteq> Key v) (pre @ v # os) = pre @ os"
    using a by (simp add: filter_key_out)
  have "keySorted (pre @ os)" using Cons.prems by (auto simp: keySorted_append keySorted_Cons)
  from Cons.IH [OF this] show ?case using f by simp
qed

lemma replay_diffEvents:
  "keySorted (pre @ os) \<Longrightarrow> keySorted (pre @ ns) \<Longrightarrow>
   replay (diffEvents os ns) (pre @ os) = Some (pre @ ns)"
proof (induction os ns arbitrary: pre rule: diffEvents.induct)
  case (1 ns)
  then show ?case using replay_adds [of pre ns] by simp
next
  case (2 v os)
  then show ?case using replay_deletes [of pre "v # os"] by simp
next
  case (3 v os n ns)
  have pv: "\<forall>x\<in>set pre. Key x < Key v" and vo: "\<forall>y\<in>set os. Key v < Key y"
    and pn: "\<forall>x\<in>set pre. Key x < Key n" and nn: "\<forall>y\<in>set ns. Key n < Key y"
    using "3.prems" by (auto simp: keySorted_append keySorted_Cons)
  show ?case
  proof (cases "v = n")
    case True
    have "keySorted ((pre @ [n]) @ os)" "keySorted ((pre @ [n]) @ ns)"
      using "3.prems" True by simp_all
    from "3.IH"(1) [OF True this] show ?thesis using True by simp
  next
    case False
    show ?thesis
    proof (cases "Key v = Key n")
      case True
      have m: "map (\<lambda>x. if Key x = Key n then n else x) (pre @ v # os) = pre @ n # os"
      proof -
        have "\<forall>x\<in>set pre. Key x \<noteq> Key n" "\<forall>x\<in>set os. Key x \<noteq> Key n"
          using pn vo True by auto
        then show ?thesis using True by (simp add: map_key_out)
      qed
      have "keySorted ((pre @ [n]) @ os)" "keySorted ((pre @ [n]) @ ns)"
        using "3.prems" True by (auto simp: keySorted_append keySorted_Cons)
      from "3.IH"(2) [OF False True this] show ?thesis using False True m by simp
    next
      case ne: False
      show ?thesis
      proof (cases "Key v < Key n")
        case True
        have "\<forall>x\<in>set pre. Key x \<noteq> Key v" "\<forall>x\<in>set os. Key x \<noteq> Key v"
          using pv vo by auto
        then have f: "filter (\<lambda>x. Key x \<noteq> Key v) (pre @ v # os) = pre @ os"
          by (simp add: filter_key_out)
        have "keySorted (pre @ os)"
          using "3.prems" by (auto simp: keySorted_append keySorted_Cons)
        from "3.IH"(3) [OF False ne True this "3.prems"(2)] show ?thesis
          using False ne True f by simp
      next
        case nlt: False
        then have lt: "Key n < Key v" using ne by auto
        have notin: "Key n \<notin> Key ` set (pre @ v # os)"
          using pn vo lt by force
        have "\<forall>y\<in>set (v # os). Key n < Key y"
          using vo lt by (auto intro: less_trans)
        with pn have ins: "insort_key Key n (pre @ v # os) = pre @ n # v # os"
          by (rule insort_between)
        have "keySorted ((pre @ [n]) @ v # os)" "keySorted ((pre @ [n]) @ ns)"
          using "3.prems" lt by (auto simp: keySorted_append keySorted_Cons)
        from "3.IH"(4) [OF False ne nlt this] show ?thesis
          using False ne nlt notin ins by simp
      qed
    qed
  qed
qed

lemma diffEvents_keys_subset:
  "(c, e) \<in> set (diffEvents os ns) \<Longrightarrow> c \<in> set os \<union> set ns"
  by (induction os ns rule: diffEvents.induct) (auto split: if_splits)

lemma diffEvents_sorted:
  "keySorted os \<Longrightarrow> keySorted ns \<Longrightarrow>
   sorted_wrt (<) (map (\<lambda>(c, e). Key c) (diffEvents os ns))"
proof (induction os ns rule: diffEvents.induct)
  case (1 ns)
  then show ?case by (simp add: keySorted_def comp_def case_prod_beta sorted_wrt_map)
next
  case (2 v os)
  then have "sorted_wrt (<) (map Key (v # os))" by (simp add: keySorted_def)
  then show ?case by (simp add: comp_def sorted_wrt_map)
next
  case (3 v os n ns)
  have vo: "\<forall>y\<in>set os. Key v < Key y" and nn: "\<forall>y\<in>set ns. Key n < Key y"
    and so: "keySorted os" and sn: "keySorted ns"
    using "3.prems" by (auto simp: keySorted_Cons)
  show ?case
  proof (cases "v = n")
    case True
    with "3.IH"(1) so sn show ?thesis by simp
  next
    case False
    show ?thesis
    proof (cases "Key v = Key n")
      case True
      have "\<forall>(c, e)\<in>set (diffEvents os ns). Key n < Key c"
        using diffEvents_keys_subset [of _ _ os ns] vo nn True by fastforce
      with "3.IH"(2) [OF False True so sn] show ?thesis
        using False True by (auto simp: case_prod_beta)
    next
      case ne: False
      show ?thesis
      proof (cases "Key v < Key n")
        case True
        have "\<forall>(c, e)\<in>set (diffEvents os (n # ns)). Key v < Key c"
          using diffEvents_keys_subset [of _ _ os "n # ns"] vo nn True
          by (fastforce intro: less_trans)
        with "3.IH"(3) [OF False ne True so "3.prems"(2)] show ?thesis
          using False ne True by (auto simp: case_prod_beta)
      next
        case nlt: False
        then have lt: "Key n < Key v" using ne by auto
        have "\<forall>(c, e)\<in>set (diffEvents (v # os) ns). Key n < Key c"
          using diffEvents_keys_subset [of _ _ "v # os" ns] vo nn lt
          by (fastforce intro: less_trans)
        with "3.IH"(4) [OF False ne nlt "3.prems"(1) sn] show ?thesis
          using False ne nlt by (auto simp: case_prod_beta)
      qed
    qed
  qed
qed

lemma diffEvents_Add:
  "keySorted os \<Longrightarrow> keySorted ns \<Longrightarrow>
   ((c, EventAdd) \<in> set (diffEvents os ns)) = (c \<in> set ns \<and> Key c \<notin> Key ` set os)"
proof (induction os ns rule: diffEvents.induct)
  case (1 ns)
  then show ?case by auto
next
  case (2 v os)
  then show ?case by auto
next
  case (3 v os n ns)
  have vo: "\<forall>y\<in>set os. Key v < Key y" and nn: "\<forall>y\<in>set ns. Key n < Key y"
    and so: "keySorted os" and sn: "keySorted ns"
    using "3.prems" by (auto simp: keySorted_Cons)
  show ?case
  proof (cases "v = n")
    case True
    with "3.IH"(1) so sn vo nn show ?thesis by auto
  next
    case False
    show ?thesis
    proof (cases "Key v = Key n")
      case True
      with "3.IH"(2) [OF False True so sn] False vo nn show ?thesis by auto
    next
      case ne: False
      show ?thesis
      proof (cases "Key v < Key n")
        case True
        with "3.IH"(3) [OF False ne True so "3.prems"(2)] False ne vo nn show ?thesis
          by (auto dest: less_trans)
      next
        case nlt: False
        then have lt: "Key n < Key v" using ne by auto
        with "3.IH"(4) [OF False ne nlt "3.prems"(1) sn] False ne nlt vo nn show ?thesis
          by (auto dest: less_trans)
      qed
    qed
  qed
qed

lemma diffEvents_Delete:
  "keySorted os \<Longrightarrow> keySorted ns \<Longrightarrow>
   ((c, EventDelete) \<in> set (diffEvents os ns)) = (c \<in> set os \<and> Key c \<notin> Key ` set ns)"
proof (induction os ns rule: diffEvents.induct)
  case (1 ns)
  then show ?case by auto
next
  case (2 v os)
  then show ?case by auto
next
  case (3 v os n ns)
  have vo: "\<forall>y\<in>set os. Key v < Key y" and nn: "\<forall>y\<in>set ns. Key n < Key y"
    and so: "keySorted os" and sn: "keySorted ns"
    using "3.prems" by (auto simp: keySorted_Cons)
  show ?case
  proof (cases "v = n")
    case True
    with "3.IH"(1) so sn vo nn show ?thesis by auto
  next
    case False
    show ?thesis
    proof (cases "Key v = Key n")
      case True
      with "3.IH"(2) [OF False True so sn] False vo nn show ?thesis by auto
    next
      case ne: False
      show ?thesis
      proof (cases "Key v < Key n")
        case True
        with "3.IH"(3) [OF False ne True so "3.prems"(2)] False ne vo nn show ?thesis
          by (auto dest: less_trans)
      next
        case nlt: False
        then have lt: "Key n < Key v" using ne by auto
        with "3.IH"(4) [OF False ne nlt "3.prems"(1) sn] False ne nlt vo nn show ?thesis
          by (auto dest: less_trans)
      qed
    qed
  qed
qed

lemma diffEvents_Update:
  "keySorted os \<Longrightarrow> keySorted ns \<Longrightarrow>
   ((c, EventUpdate) \<in> set (diffEvents os ns)) =
   (c \<in> set ns \<and> Key c \<in> Key ` set os \<and> c \<notin> set os)"
proof (induction os ns rule: diffEvents.induct)
  case (1 ns)
  then show ?case by auto
next
  case (2 v os)
  then show ?case by auto
next
  case (3 v os n ns)
  have vo: "\<forall>y\<in>set os. Key v < Key y" and nn: "\<forall>y\<in>set ns. Key n < Key y"
    and so: "keySorted os" and sn: "keySorted ns"
    using "3.prems" by (auto simp: keySorted_Cons)
  show ?case
  proof (cases "v = n")
    case True
    with "3.IH"(1) so sn vo nn show ?thesis by auto
  next
    case False
    show ?thesis
    proof (cases "Key v = Key n")
      case True
      with "3.IH"(2) [OF False True so sn] False vo nn show ?thesis by auto
    next
      case ne: False
      show ?thesis
      proof (cases "Key v < Key n")
        case True
        with "3.IH"(3) [OF False ne True so "3.prems"(2)] False ne vo nn show ?thesis
          by (auto dest: less_trans)
      next
        case nlt: False
        then have lt: "Key n < Key v" using ne by auto
        with "3.IH"(4) [OF False ne nlt "3.prems"(1) sn] False ne nlt vo nn show ?thesis
          by (auto dest: less_trans)
      qed
    qed
  qed
qed

lemma keySorted_inj: "keySorted xs \<Longrightarrow> x \<in> set xs \<Longrightarrow> y \<in> set xs \<Longrightarrow> Key x = Key y \<Longrightarrow> x = y"
  by (induction xs) (auto simp: keySorted_Cons)

lemma diffEvents_unchanged:
  assumes "keySorted os" "keySorted ns" "c \<in> set os" "c \<in> set ns"
  shows "\<forall>(c', e)\<in>set (diffEvents os ns). Key c' \<noteq> Key c"
proof (clarify)
  fix c' e
  assume m: "(c', e) \<in> set (diffEvents os ns)" and k: "Key c' = Key c"
  show False
  proof (cases e)
    case EventAdd
    with m assms k diffEvents_Add [OF assms(1,2), of c'] show False by force
  next
    case EventUpdate
    with m diffEvents_Update [OF assms(1,2), of c'] have "c' \<in> set ns" "c' \<notin> set os" by auto
    with keySorted_inj [OF assms(2) _ assms(4) k] assms(3) show False by auto
  next
    case EventDelete
    with m assms k diffEvents_Delete [OF assms(1,2), of c'] show False by force
  qed
qed




text \<open>
  Claim C2. When the list call fails for a kind, the tick ends there: the monitor is
  returned as it is, and the kinds after the failing one are not listed, compared or
  cached in this tick.
\<close>

theorem UpdateConfigRecord_list_error_returns:
  "storeList typ = Inl err \<Longrightarrow> UpdateConfigRecord lib (typ # rest) storeList m = m"
  by simp

theorem UpdateConfigRecord_list_error_returns_witness:
  "failingList ''route-rule'' = Inl ''backend unavailable''
   \<and> failingList ''ingress-rule'' = Inr [\<lparr> Type = ''ingress-rule'', Key = ''k'', Revision = ''1'', Content = 0 \<rparr>]
   \<and> UpdateConfigRecord libExample [''route-rule'', ''ingress-rule''] failingList
        (NewConfigsMonitor [''route-rule'', ''ingress-rule''] 1)
      = NewConfigsMonitor [''route-rule'', ''ingress-rule''] 1
   \<and> cached (UpdateConfigRecord libExample [''route-rule'', ''ingress-rule''] failingList
        (NewConfigsMonitor [''route-rule'', ''ingress-rule''] 1)) ''ingress-rule'' = []
   \<and> emitted (UpdateConfigRecord libExample [''route-rule'', ''ingress-rule''] failingList
        (NewConfigsMonitor [''route-rule'', ''ingress-rule''] 1)) = []"
proof -
  have h: "failingList ''route-rule'' = Inl ''backend unavailable''"
    by (simp add: failingList_def)
  have h2: "failingList ''ingress-rule'' = Inr [\<lparr> Type = ''ingress-rule'', Key = ''k'', Revision = ''1'', Content = 0 \<rparr>]"
    by (simp add: failingList_def)
  note t = UpdateConfigRecord_list_error_returns [of failingList "''route-rule''"
      "''backend unavailable''" libExample "[''ingress-rule'']"
      "NewConfigsMonitor [''route-rule'', ''ingress-rule''] 1", OF h]
  have c: "cached (NewConfigsMonitor [''route-rule'', ''ingress-rule''] 1 :: nat configsMonitor) ''ingress-rule'' = []"
    by (simp add: cached_def NewConfigsMonitor_def)
  have e: "emitted (NewConfigsMonitor [''route-rule'', ''ingress-rule''] 1 :: nat configsMonitor) = []"
    by (simp add: NewConfigsMonitor_def)
  show ?thesis
    unfolding t using h h2 c e by (intro conjI) simp_all
qed

lemma run_Some_False: "run lib tys sched m = Some m' \<Longrightarrow> False"
  by (rule run.raw_induct [where P = "\<lambda>_ _ _ _ _. False"]) (auto split: SelectCase.splits)

text \<open>
  Claim C3. The run loop has no exit: for every order in which the stop channel and the
  ticks are served, also when the stop signal has fired, \<^verbatim>\<open>run\<close> (and with it
  \<^verbatim>\<open>Start\<close>) does not return.
\<close>

theorem run_never_returns:
  "run lib IstioConfigTypes sched m = None \<and> Start lib IstioConfigTypes sched m = None"
proof
  show "run lib IstioConfigTypes sched m = None"
    using run_Some_False [of lib IstioConfigTypes sched m]
    by (cases "run lib IstioConfigTypes sched m") auto
  show "Start lib IstioConfigTypes sched m = None"
    unfolding Start_def
    using run_Some_False [of lib IstioConfigTypes sched "m\<lparr>ticker := Some (Armed (period m))\<rparr>"]
    by (cases "run lib IstioConfigTypes sched (m\<lparr>ticker := Some (Armed (period m))\<rparr>)") auto
qed

lemma keyOrder_strictWeakOrder: "strictWeakOrder (\<lambda>a b :: 'p Config. Key a < Key b)"
  by (auto simp: strictWeakOrder_def)

lemma normalize_sorted_permutation:
  assumes "sortSliceSorts lib"
  shows "mset (normalize lib xs) = mset xs \<and> sorted (map Key (normalize lib xs))"
proof -
  have c: "mset (normalize lib xs) = mset xs
      \<and> sorted_wrt (\<lambda>a b. \<not> Key b < Key a) (normalize lib xs)"
    using assms keyOrder_strictWeakOrder [where ?'p = 'a]
    unfolding sortSliceSorts_def normalize_def by blast
  then show ?thesis by (simp add: sorted_map not_less)
qed

lemma mset_insertBy: "mset (insertBy lessFn x ys) = add_mset x (mset ys)"
  by (induction ys) simp_all

lemma set_insertBy: "set (insertBy lessFn x ys) = insert x (set ys)"
  by (induction ys) auto

lemma sorted_insertBy:
  assumes "strictWeakOrder lessFn" and "sorted_wrt (\<lambda>a b. \<not> lessFn b a) ys"
  shows "sorted_wrt (\<lambda>a b. \<not> lessFn b a) (insertBy lessFn x ys)"
  using assms(2)
proof (induction ys)
  case Nil
  then show ?case by simp
next
  case (Cons y ys)
  have irr: "\<not> lessFn a a" and tr: "lessFn a b \<Longrightarrow> lessFn b c \<Longrightarrow> lessFn a c" for a b c
    using assms(1) unfolding strictWeakOrder_def by blast+
  show ?case
  proof (cases "lessFn x y")
    case True
    have "\<not> lessFn y x" using True irr tr by blast
    moreover have "\<not> lessFn z x" if "z \<in> set ys" for z
    proof
      assume "lessFn z x"
      then have "lessFn z y" using True tr by blast
      with Cons.prems that show False by simp
    qed
    ultimately show ?thesis using True Cons.prems by auto
  next
    case False
    then show ?thesis using Cons by (auto simp: set_insertBy)
  qed
qed

lemma insertionSort_sorts:
  "strictWeakOrder lessFn \<Longrightarrow>
   mset (insertionSort xs lessFn) = mset xs
   \<and> sorted_wrt (\<lambda>a b. \<not> lessFn b a) (insertionSort xs lessFn)"
  by (induction xs) (simp_all add: insertionSort_def mset_insertBy sorted_insertBy)

lemma NewConfigsMonitor_cache:
  "fold (\<lambda>typ cache. cache(typ \<mapsto> [])) tys c0 typ = (if typ \<in> set tys then Some [] else c0 typ)"
  by (induction tys arbitrary: c0) auto

lemma cached_New: "cached (NewConfigsMonitor tys p) typ = []"
  by (simp add: cached_def NewConfigsMonitor_def NewConfigsMonitor_cache)

lemma UpdateConfigRecord_cached:
  "cached (UpdateConfigRecord lib tys storeList m) typ =
     (if typ \<in> set (listedKinds tys storeList) then normalize lib (projr (storeList typ))
      else cached m typ)"
proof (induction tys arbitrary: m)
  case Nil
  then show ?case by (simp add: listedKinds_def)
next
  case (Cons t tys)
  show ?case
  proof (cases "storeList t")
    case (Inl err)
    then show ?thesis by (simp add: listedKinds_def)
  next
    case (Inr configs)
    define m' where "m' = m\<lparr> emitted := emitted m @ map (\<lambda>(c, e). (t, c, e))
         (compareToCache lib (cached m t) (normalize lib configs)),
       configCachedRecord := (configCachedRecord m)(t \<mapsto> normalize lib configs) \<rparr>"
    have u: "UpdateConfigRecord lib (t # tys) storeList m = UpdateConfigRecord lib tys storeList m'"
      using Inr by (simp add: m'_def Let_def)
    have c: "cached m' typ = (if typ = t then normalize lib configs else cached m typ)"
      by (simp add: m'_def cached_def)
    have l: "listedKinds (t # tys) storeList = t # listedKinds tys storeList"
      using Inr by (simp add: listedKinds_def)
    show ?thesis
      unfolding u l Cons.IH [of m'] c using Inr by auto
  qed
qed

lemma UpdateConfigRecord_sorted:
  assumes "sortSliceSorts lib" and "sorted (map Key (cached m typ))"
  shows "sorted (map Key (cached (UpdateConfigRecord lib tys storeList m) typ))"
  unfolding UpdateConfigRecord_cached
  using assms normalize_sorted_permutation [OF assms(1)] by simp

lemma ticks_sorted:
  assumes "sortSliceSorts lib"
  shows "sorted (map Key (cached m typ)) \<Longrightarrow>
         sorted (map Key (cached (ticks lib tys answers m) typ))"
  unfolding ticks_def
  by (induction answers arbitrary: m) (auto intro: UpdateConfigRecord_sorted [OF assms])

lemma listedKinds_all:
  "\<forall>t\<in>set tys. \<not> isl (storeList t) \<Longrightarrow> listedKinds tys storeList = tys"
  by (simp add: listedKinds_def)

text \<open>
  Claim C10. Where the library sort sorts, the cache of every kind is sorted by key: it
  is empty after construction and sorted after any number of ticks. After one update
  cycle the cache of a kind that the cycle got to is the normalized list of the records
  that the store returned for it, and the cache of every other kind is as before; in a
  cycle without a failing list call every registered kind is got to. The normalized list
  has the records of the listed one, each as often as there, in ascending key order.
\<close>

theorem cache_sorted_invariant:
  fixes m :: "'p configsMonitor" and storeList :: "('e, 'p) ListFn"
    and answers :: "('e, 'p) ListFn list" and lib :: "'p Library"
  assumes "sortSliceSorts lib"
  shows "cached (NewConfigsMonitor tys p :: 'p configsMonitor) typ = []
   \<and> sorted (map Key (cached (ticks lib tys answers (NewConfigsMonitor tys p)) typ))
   \<and> cached (UpdateConfigRecord lib tys storeList m) typ =
       (if typ \<in> set (listedKinds tys storeList) then normalize lib (projr (storeList typ))
        else cached m typ)
   \<and> ((\<forall>t\<in>set tys. \<not> isl (storeList t)) \<longrightarrow> typ \<in> set tys \<longrightarrow> storeList typ = Inr configs \<longrightarrow>
        cached (UpdateConfigRecord lib tys storeList m) typ = normalize lib configs)
   \<and> mset (normalize lib configs) = mset configs
   \<and> sorted (map Key (normalize lib configs))"
proof (intro conjI)
  show e: "cached (NewConfigsMonitor tys p :: 'p configsMonitor) typ = []"
    by (rule cached_New)
  show "sorted (map Key (cached (ticks lib tys answers (NewConfigsMonitor tys p :: 'p configsMonitor)) typ))"
    by (rule ticks_sorted [OF assms]) (simp add: e)
  show "cached (UpdateConfigRecord lib tys storeList m) typ =
       (if typ \<in> set (listedKinds tys storeList) then normalize lib (projr (storeList typ))
        else cached m typ)"
    by (rule UpdateConfigRecord_cached)
  show "(\<forall>t\<in>set tys. \<not> isl (storeList t)) \<longrightarrow> typ \<in> set tys \<longrightarrow> storeList typ = Inr configs \<longrightarrow>
        cached (UpdateConfigRecord lib tys storeList m) typ = normalize lib configs"
    by (auto simp: UpdateConfigRecord_cached listedKinds_all)
  show "mset (normalize lib configs) = mset configs"
    using normalize_sorted_permutation [OF assms] by simp
  show "sorted (map Key (normalize lib configs))"
    using normalize_sorted_permutation [OF assms] by simp
qed

theorem cache_sorted_invariant_witness:
  "sortSliceSorts libExample
   \<and> cached (UpdateConfigRecord libExample [''route-rule'', ''ingress-rule''] succeedingList
        (NewConfigsMonitor [''route-rule'', ''ingress-rule''] 1)) ''ingress-rule''
      = [cfg ''a'' ''1'' 0, cfg ''b'' ''1'' 0]
   \<and> cached (UpdateConfigRecord libExample [''route-rule'', ''ingress-rule''] failingList
        (NewConfigsMonitor [''route-rule'', ''ingress-rule''] 1)) ''ingress-rule'' = []"
proof -
  have h: "sortSliceSorts libExample"
    by (simp add: sortSliceSorts_def libExample_def insertionSort_sorts)
  let ?tys = "[''route-rule'', ''ingress-rule'']"
  let ?m = "NewConfigsMonitor ?tys 1 :: nat configsMonitor"
  note t = cache_sorted_invariant [OF h, of ?tys 1 "''ingress-rule''" "[]" succeedingList ?m
      "[cfg ''b'' ''1'' 0, cfg ''a'' ''1'' 0]"]
  have a: "\<forall>t\<in>set ?tys. \<not> isl (succeedingList t)" "''ingress-rule'' \<in> set ?tys"
    "succeedingList ''ingress-rule'' = Inr [cfg ''b'' ''1'' 0, cfg ''a'' ''1'' 0]"
    by (simp_all add: succeedingList_def)
  from t have "(\<forall>t\<in>set ?tys. \<not> isl (succeedingList t)) \<longrightarrow> ''ingress-rule'' \<in> set ?tys \<longrightarrow>
      succeedingList ''ingress-rule'' = Inr [cfg ''b'' ''1'' 0, cfg ''a'' ''1'' 0] \<longrightarrow>
      cached (UpdateConfigRecord libExample ?tys succeedingList ?m) ''ingress-rule''
        = normalize libExample [cfg ''b'' ''1'' 0, cfg ''a'' ''1'' 0]"
    by (elim conjE)
  with a have "cached (UpdateConfigRecord libExample ?tys succeedingList ?m) ''ingress-rule''
        = normalize libExample [cfg ''b'' ''1'' 0, cfg ''a'' ''1'' 0]"
    by (elim impE)
  then have r1: "cached (UpdateConfigRecord libExample ?tys succeedingList ?m) ''ingress-rule''
      = [cfg ''a'' ''1'' 0, cfg ''b'' ''1'' 0]"
    by (simp add: normalize_def libExample_def insertionSort_def cfg_def less_char_def)
  note t2 = cache_sorted_invariant [OF h, of ?tys 1 "''ingress-rule''" "[]" failingList ?m "[]"]
  from t2 have "cached (UpdateConfigRecord libExample ?tys failingList ?m) ''ingress-rule''
      = (if ''ingress-rule'' \<in> set (listedKinds ?tys failingList)
         then normalize libExample (projr (failingList ''ingress-rule''))
         else cached ?m ''ingress-rule'')"
    by (elim conjE)
  then have r2: "cached (UpdateConfigRecord libExample ?tys failingList ?m) ''ingress-rule'' = []"
    by (simp add: listedKinds_def failingList_def cached_def NewConfigsMonitor_def)
  from h r1 r2 show ?thesis by (intro conjI)
qed

section \<open>The ingress controller: proofs\<close>

lemma handler_RegisterEventHandler:
  "\<exists>h. handler (RegisterEventHandler env c typ f) = handler c @ [h]"
  by (simp add: RegisterEventHandler_def)

lemma handler_registerAll:
  "\<exists>hs. handler (registerAll env regs c) = handler c @ hs"
proof (induction regs arbitrary: c)
  case Nil
  then show ?case by (simp add: registerAll_def)
next
  case (Cons r regs)
  obtain ty f where r: "r = (ty, f)" by (cases r)
  obtain h where h: "handler (RegisterEventHandler env c ty f) = handler c @ [h]"
    using handler_RegisterEventHandler by blast
  obtain hs where "handler (registerAll env regs (RegisterEventHandler env c ty f))
      = handler (RegisterEventHandler env c ty f) @ hs"
    using Cons.IH by blast
  then show ?case using r h by (simp add: registerAll_def)
qed

lemma Apply_gate:
  "\<not> HasSynced informerNow \<Longrightarrow> Apply (syncHandler # hs) informerNow obj event w = (Some errWaitingSync, w)"
  by (simp add: syncHandler_def)

text \<open>
  Claim C8. The first handler of the chain of a new controller, after any number of
  registrations, is the synchronization gate. While the informer has not synced, the
  gate returns its error for every object and event, and a pass over the chain returns
  that error with the outside world unchanged: no registered handler has run. Once the
  informer has synced the gate returns no error.
\<close>

theorem sync_gate:
  fixes env :: "('i, 'mesh, 'p, 'x) IngressEnv" and w :: 'w
    and regs :: "(string \<times> ('p Config \<Rightarrow> Event \<Rightarrow> 'w \<Rightarrow> 'w)) list"
  shows "hd (handler (registerAll env regs (NewController newInformer meshConfig options))) = syncHandler
    \<and> (\<not> HasSynced informerNow \<longrightarrow>
         (syncHandler informerNow obj event w :: ingress_error option \<times> 'w) = (Some errWaitingSync, w)
         \<and> Apply (handler (registerAll env regs (NewController newInformer meshConfig options)))
               informerNow obj event w = (Some errWaitingSync, w))
    \<and> (HasSynced informerNow \<longrightarrow> (syncHandler informerNow obj event w :: ingress_error option \<times> 'w) = (None, w))"
proof -
  obtain hs where hs: "handler (registerAll env regs (NewController newInformer meshConfig options
        :: ('i, 'mesh, 'x, 'w) controller)) = syncHandler # hs"
    using handler_registerAll [of env regs "NewController newInformer meshConfig options"]
    by (auto simp: NewController_def)
  show ?thesis
    unfolding hs using Apply_gate [of informerNow hs obj event w]
    by (simp add: syncHandler_def)
qed


theorem sync_gate_witness:
  "\<not> HasSynced (informerExample False)
   \<and> Apply (handler controllerExample) (informerExample False) [''web'', ''api''] EventAdd []
       = (Some errWaitingSync, [])
   \<and> HasSynced (informerExample True)
   \<and> syncHandler (informerExample True) [''web'', ''api''] EventAdd ([] :: (nat Config \<times> Event) list) = (None, [])
   \<and> Apply (handler controllerExample) (informerExample True) [''web'', ''api''] EventAdd []
       = (None, [(\<lparr>Type = ''ingress-rule'', Key = ''web'', Revision = [], Content = 3\<rparr>, EventAdd),
                 (\<lparr>Type = ''ingress-rule'', Key = ''api'', Revision = [], Content = 3\<rparr>, EventAdd)])"
proof -
  have n: "\<not> HasSynced (informerExample False)" and y: "HasSynced (informerExample True)"
    by (simp_all add: informerExample_def)
  note t = sync_gate [of envExample "[(''ingress-rule'', recordEvent)]" "informerExample False" "()"
      "\<lparr> Namespace = ''default'', DomainSuffix = ''cluster.local'' \<rparr>" "informerExample False"
      "[''web'', ''api'']" EventAdd "[]"]
  note t2 = sync_gate [of envExample "[(''ingress-rule'', recordEvent)]" "informerExample False" "()"
      "\<lparr> Namespace = ''default'', DomainSuffix = ''cluster.local'' \<rparr>" "informerExample True"
      "[''web'', ''api'']" EventAdd "[] :: (nat Config \<times> Event) list"]
  have a: "Apply (handler controllerExample) (informerExample False) [''web'', ''api''] EventAdd []
       = (Some errWaitingSync, [])"
    using t n unfolding controllerExample_def by blast
  have g: "syncHandler (informerExample True) [''web'', ''api''] EventAdd ([] :: (nat Config \<times> Event) list) = (None, [])"
    using t2 y by blast
  have r: "Apply (handler controllerExample) (informerExample True) [''web'', ''api''] EventAdd []
       = (None, [(\<lparr>Type = ''ingress-rule'', Key = ''web'', Revision = [], Content = 3\<rparr>, EventAdd),
                 (\<lparr>Type = ''ingress-rule'', Key = ''api'', Revision = [], Content = 3\<rparr>, EventAdd)])"
    by (simp add: controllerExample_def registerAll_def RegisterEventHandler_def NewController_def
        syncHandler_def informerExample_def envExample_def recordEvent_def)
  from n a y g r show ?thesis by (intro conjI)
qed

text \<open>
  Claim C5. For every argument, \<^verbatim>\<open>Post\<close>, \<^verbatim>\<open>Put\<close> and \<^verbatim>\<open>Delete\<close> return the
  fixed unsupported-operation error and leave the controller as it was.
\<close>

theorem write_operations_unsupported:
  "Post c msg = (([], Some errUnsupportedOp), c)
   \<and> Put c msg' revision = (([], Some errUnsupportedOp), c)
   \<and> Delete c typ key = (Some errUnsupportedOp, c)"
  by (simp add: Post_def Put_def Delete_def)

text \<open>
  Claim C9. For a type other than the ingress rule type, \<^verbatim>\<open>Get\<close> returns not found
  (no payload, false, empty revision) and signals no error, while \<^verbatim>\<open>List\<close> returns the
  unsupported-operation error.
\<close>

theorem foreign_type_Get_List:
  "typ \<noteq> IngressRuleType env \<Longrightarrow>
   Get env c typ key = (None, False, []) \<and> List_ingress env c typ = Inl errUnsupportedOp"
  by (simp add: Get_def List_ingress_def)


theorem foreign_type_Get_List_witness:
  "''route-rule'' \<noteq> IngressRuleType envExample
   \<and> Get envExample controllerExample ''route-rule'' ''web'' = (None, False, [])
   \<and> List_ingress envExample controllerExample ''route-rule'' = Inl errUnsupportedOp
   \<and> Get envExample controllerExample ''ingress-rule'' ''web'' = (Some 3, True, ''7'')"
proof -
  have h: "''route-rule'' \<noteq> IngressRuleType envExample" by (simp add: envExample_def)
  have g: "Get envExample controllerExample ''ingress-rule'' ''web'' = (Some 3, True, ''7'')"
    by (simp add: Get_def controllerExample_def registerAll_def RegisterEventHandler_def
        NewController_def informerExample_def envExample_def)
  from foreign_type_Get_List [OF h, of controllerExample "''web''"] h g
  show ?thesis by (intro conjI) simp_all
qed

section \<open>Validation: proofs\<close>

lemma sint_scast_32_64: "sint (scast (w :: 32 word) :: 64 word) = sint w"
  by (rule sint_up_scast) (simp add: is_up)

lemma sint_32_bounds: "- (2 ^ 31) \<le> sint (w :: 32 word)" "sint (w :: 32 word) < 2 ^ 31"
  using sint_ge [of w] sint_lt [of w] by simp_all

lemma fold_weights:
  fixes s0 :: "64 word"
  assumes "\<bar>sint s0\<bar> + int (length routes) * 2 ^ 31 < 2 ^ 63"
  shows "sint (fold (\<lambda>destWeight sum. sum + (scast (Weight destWeight) :: 64 word)) routes s0)
         = sint s0 + weightSum routes"
  using assms
proof (induction routes arbitrary: s0)
  case Nil
  then show ?case by (simp add: weightSum_def)
next
  case (Cons dw routes)
  let ?s1 = "s0 + (scast (Weight dw) :: 64 word)"
  have b: "\<bar>sint s0 + sint (Weight dw)\<bar> \<le> \<bar>sint s0\<bar> + 2 ^ 31"
    using sint_32_bounds [of "Weight dw"] by linarith
  have lt: "\<bar>sint s0\<bar> + 2 ^ 31 + int (length routes) * 2 ^ 31 < 2 ^ 63"
    using Cons.prems by (simp add: algebra_simps)
  have "0 \<le> int (length routes) * 2 ^ 31" by simp
  with b lt have r: "- (2 ^ 63) \<le> sint s0 + sint (Weight dw)" "sint s0 + sint (Weight dw) < 2 ^ 63"
    by linarith+
  have s1: "sint ?s1 = sint s0 + sint (Weight dw)"
    using r by (simp add: sint_word_add sint_scast_32_64 signed_take_bit_int_eq_self)
  have "\<bar>sint ?s1\<bar> + int (length routes) * 2 ^ 31 < 2 ^ 63"
    using s1 b lt by linarith
  from Cons.IH [OF this] show ?case
    using s1 by (simp add: weightSum_def)
qed

lemma sum_weights:
  assumes "length routes < 2 ^ 32"
  shows "sint (fold (\<lambda>destWeight sum. sum + (scast (Weight destWeight) :: 64 word)) routes 0)
         = weightSum routes"
proof -
  have "int (length routes) < 2 ^ 32" using assms by (simp add: nat_less_numeral_power_cancel_iff)
  then have "int (length routes) * 2 ^ 31 < 2 ^ 32 * 2 ^ 31" by simp
  then have "\<bar>sint (0 :: 64 word)\<bar> + int (length routes) * 2 ^ 31 < 2 ^ 63" by simp
  from fold_weights [OF this] show ?thesis by simp
qed

lemma word64_eq_sint: "((w :: 64 word) = v) = (sint w = sint v)"
  by (auto intro: signed_word_eqI)

lemma ValidateWeights_char:
  assumes "length routes < 2 ^ 32"
  shows "ValidateWeights routes dd =
     (if length routes = 1 \<and> weightSum routes = 0 then None
      else if weightSum routes \<noteq> 100 then Some (Multi [RouteWeightsTotal (weightSum routes)])
      else None)"
proof -
  let ?s = "fold (\<lambda>destWeight sum. sum + (scast (Weight destWeight) :: 64 word)) routes 0"
  have s: "sint ?s = weightSum routes" by (rule sum_weights [OF assms])
  have z: "(?s = 0) = (weightSum routes = 0)"
    using s by (simp add: word64_eq_sint [of ?s 0])
  have h: "(?s = 100) = (weightSum routes = 100)"
    using s by (simp add: word64_eq_sint [of ?s 100])
  show ?thesis
    unfolding ValidateWeights_def Let_def z h s
    by (simp add: Append_def)
qed

text \<open>
  Claim C6, as amended. For fewer than \<open>2^32\<close> destinations (where the 64-bit sum cannot
  wrap around), the weights are accepted exactly when they sum to 100 or when there is
  exactly one destination and its weight is 0; a rejected list gets the one error that
  carries the sum. Two destinations weighted 60 and 30 are rejected with the total 90;
  a single destination of weight 0 is accepted.
\<close>

theorem ValidateWeights_total:
  assumes "length routes < 2 ^ 32"
  shows "(ValidateWeights routes dd = None)
           = (weightSum routes = 100 \<or> (\<exists>dw. routes = [dw] \<and> Weight dw = 0))
    \<and> (ValidateWeights routes dd = None
        \<or> ValidateWeights routes dd = Some (Multi [RouteWeightsTotal (weightSum routes)]))
    \<and> (Weight a = 60 \<longrightarrow> Weight b = 30 \<longrightarrow>
          ValidateWeights [a, b] dd = Some (Multi [RouteWeightsTotal 90]))
    \<and> (Weight c = 0 \<longrightarrow> ValidateWeights [c] dd = None)"
proof -
  have one: "(length routes = 1 \<and> weightSum routes = 0) = (\<exists>dw. routes = [dw] \<and> Weight dw = 0)"
  proof (cases routes)
    case Nil
    then show ?thesis by simp
  next
    case (Cons dw rest)
    have "(sint (Weight dw) = 0) = (Weight dw = 0)"
      using signed_word_eqI [of "Weight dw" 0] by auto
    then show ?thesis using Cons by (cases rest) (simp_all add: weightSum_def)
  qed
  have c1: "(ValidateWeights routes dd = None)
           = (weightSum routes = 100 \<or> (\<exists>dw. routes = [dw] \<and> Weight dw = 0))"
    unfolding one [symmetric] ValidateWeights_char [OF assms] by auto
  have c2: "ValidateWeights routes dd = None
        \<or> ValidateWeights routes dd = Some (Multi [RouteWeightsTotal (weightSum routes)])"
    unfolding ValidateWeights_char [OF assms] by auto
  have c3: "Weight a = 60 \<longrightarrow> Weight b = 30 \<longrightarrow>
          ValidateWeights [a, b] dd = Some (Multi [RouteWeightsTotal 90])"
    by (simp add: ValidateWeights_def Append_def)
  have c4: "Weight c = 0 \<longrightarrow> ValidateWeights [c] dd = None"
    by (simp add: ValidateWeights_def)
  from c1 c2 c3 c4 show ?thesis by (intro conjI)
qed

theorem ValidateWeights_total_witness:
  "length [weighted 60, weighted 40] < 2 ^ 32
   \<and> weightSum [weighted 60, weighted 40] = 100
   \<and> ValidateWeights [weighted 60, weighted 40] [] = None
   \<and> ValidateWeights [weighted 60, weighted 30] [] = Some (Multi [RouteWeightsTotal 90])
   \<and> ValidateWeights [weighted 0] [] = None"
proof -
  have h: "length [weighted 60, weighted 40] < 2 ^ 32" by simp
  have w: "weightSum [weighted 60, weighted 40] = 100" by (simp add: weightSum_def weighted_def)
  have k: "Weight (weighted 60) = 60" "Weight (weighted 30) = 30" "Weight (weighted 0) = 0"
    by (simp_all add: weighted_def)
  note t = ValidateWeights_total [OF h, of "[]" "weighted 60" "weighted 30" "weighted 0"]
  from t w have a: "ValidateWeights [weighted 60, weighted 40] [] = None" by blast
  from t k have b: "ValidateWeights [weighted 60, weighted 30] [] = Some (Multi [RouteWeightsTotal 90])"
    by blast
  from t k have c: "ValidateWeights [weighted 0] [] = None" by blast
  from h w a b c show ?thesis by (intro conjI)
qed

text \<open>
  Claim C6 as stated names the total 70 for the weights 60 and 30; the code reports 90.
\<close>

theorem ValidateWeights_60_30_counterexample:
  "ValidateWeights [weighted 60, weighted 30] [] = Some (Multi [RouteWeightsTotal 90])
   \<and> ValidateWeights [weighted 60, weighted 30] [] \<noteq> Some (Multi [RouteWeightsTotal 70])"
  by (simp add: ValidateWeights_def Append_def weighted_def)

text \<open>
  Claim C4, as amended. \<^verbatim>\<open>ValidateConfig\<close> fails with the nil error when the payload is
  nil; otherwise with the undeclared-type error when the type is not registered;
  otherwise with a cast error when the payload is not a protobuf message; otherwise with
  the mismatch error when the message name of the payload differs from the registered
  one; otherwise it returns the result of the validator of the kind, unchanged. A type is
  not registered exactly when no kind of the descriptor has that type name.
\<close>

theorem ValidateConfig_cases:
  "ValidateConfig messageName descriptor typ NilObject = Some (Plain InvalidNilObject)
   \<and> (obj \<noteq> NilObject \<longrightarrow> GetByType descriptor typ = None \<longrightarrow>
        ValidateConfig messageName descriptor typ obj = Some (Plain (UndeclaredType typ)))
   \<and> (GetByType descriptor typ = Some t \<longrightarrow>
        ValidateConfig messageName descriptor typ NotProtoMessage = Some (Plain CannotCastToProtoMessage))
   \<and> (GetByType descriptor typ = Some t \<longrightarrow> messageName v \<noteq> MessageName t \<longrightarrow>
        ValidateConfig messageName descriptor typ (ProtoMessage v)
          = Some (Plain (MismatchedMessageType (messageName v) (MessageName t))))
   \<and> (GetByType descriptor typ = Some t \<longrightarrow> messageName v = MessageName t \<longrightarrow>
        ValidateConfig messageName descriptor typ (ProtoMessage v) = Validate_schema t v)
   \<and> (GetByType descriptor typ = None) = (typ \<notin> Type_schema ` set descriptor)"
proof -
  have reg: "(GetByType descriptor typ = None) = (typ \<notin> Type_schema ` set descriptor)"
    by (auto simp: GetByType_def find_None_iff)
  show ?thesis
    unfolding reg [symmetric]
    by (cases obj) (simp_all add: ValidateConfig_def)
qed

theorem ValidateConfig_cases_witness:
  "ValidateConfig messageNameExample [schemaExample] ''route-rule'' NilObject = Some (Plain InvalidNilObject)
   \<and> GetByType [schemaExample] ''ingress-rule'' = None
   \<and> ValidateConfig messageNameExample [schemaExample] ''ingress-rule'' (ProtoMessage 1)
       = Some (Plain (UndeclaredType ''ingress-rule''))
   \<and> GetByType [schemaExample] ''route-rule'' = Some schemaExample
   \<and> ValidateConfig messageNameExample [schemaExample] ''route-rule'' NotProtoMessage
       = Some (Plain CannotCastToProtoMessage)
   \<and> messageNameExample 12 \<noteq> MessageName schemaExample
   \<and> ValidateConfig messageNameExample [schemaExample] ''route-rule'' (ProtoMessage 12)
       = Some (Plain (MismatchedMessageType ''istio.proxy.v1.config.IngressRule''
                        ''istio.proxy.v1.config.RouteRule''))
   \<and> messageNameExample 0 = MessageName schemaExample
   \<and> ValidateConfig messageNameExample [schemaExample] ''route-rule'' (ProtoMessage 0)
       = Some (Plain (OtherError ''empty rule''))
   \<and> ValidateConfig messageNameExample [schemaExample] ''route-rule'' (ProtoMessage 1) = None"
proof -
  have g1: "GetByType [schemaExample] ''ingress-rule'' = None"
    and g2: "GetByType [schemaExample] ''route-rule'' = Some schemaExample"
    by (simp_all add: GetByType_def schemaExample_def)
  have m1: "messageNameExample 12 \<noteq> MessageName schemaExample"
    and m2: "messageNameExample 0 = MessageName schemaExample"
    and m3: "messageNameExample 1 = MessageName schemaExample"
    by (simp_all add: messageNameExample_def schemaExample_def)
  have o: "(ProtoMessage 1 :: nat Object) \<noteq> NilObject" by simp
  note a = ValidateConfig_cases [of messageNameExample "[schemaExample]" "''route-rule''"
      "ProtoMessage 1" schemaExample 12]
  note b = ValidateConfig_cases [of messageNameExample "[schemaExample]" "''ingress-rule''"
      "ProtoMessage 1" schemaExample 12]
  note c = ValidateConfig_cases [of messageNameExample "[schemaExample]" "''route-rule''"
      "ProtoMessage 1" schemaExample 0]
  note d = ValidateConfig_cases [of messageNameExample "[schemaExample]" "''route-rule''"
      "ProtoMessage 1" schemaExample 1]
  from a have r1: "ValidateConfig messageNameExample [schemaExample] ''route-rule'' NilObject
      = Some (Plain InvalidNilObject)" by (rule conjunct1)
  from b o g1 have r2: "ValidateConfig messageNameExample [schemaExample] ''ingress-rule'' (ProtoMessage 1)
       = Some (Plain (UndeclaredType ''ingress-rule''))" by blast
  from a g2 have r3: "ValidateConfig messageNameExample [schemaExample] ''route-rule'' NotProtoMessage
       = Some (Plain CannotCastToProtoMessage)" by blast
  from a g2 m1 have "ValidateConfig messageNameExample [schemaExample] ''route-rule'' (ProtoMessage 12)
       = Some (Plain (MismatchedMessageType (messageNameExample 12) (MessageName schemaExample)))"
    by blast
  then have r4: "ValidateConfig messageNameExample [schemaExample] ''route-rule'' (ProtoMessage 12)
       = Some (Plain (MismatchedMessageType ''istio.proxy.v1.config.IngressRule''
                        ''istio.proxy.v1.config.RouteRule''))"
    by (simp add: messageNameExample_def schemaExample_def)
  from c g2 m2 have "ValidateConfig messageNameExample [schemaExample] ''route-rule'' (ProtoMessage 0)
       = Validate_schema schemaExample 0" by blast
  then have r5: "ValidateConfig messageNameExample [schemaExample] ''route-rule'' (ProtoMessage 0)
       = Some (Plain (OtherError ''empty rule''))" by (simp add: schemaExample_def)
  from d g2 m3 have "ValidateConfig messageNameExample [schemaExample] ''route-rule'' (ProtoMessage 1)
       = Validate_schema schemaExample 1" by blast
  then have r6: "ValidateConfig messageNameExample [schemaExample] ''route-rule'' (ProtoMessage 1) = None"
    by (simp add: schemaExample_def)
  from r1 g1 r2 g2 r3 m1 r4 m2 r5 r6 show ?thesis by (intro conjI)
qed

text \<open>
  Claim C4 as stated lists three failures and otherwise the validator's result. A payload
  that is not nil and not a protobuf message, for a registered type, fails with a fourth
  error, and the validator of the kind is not consulted.
\<close>

theorem ValidateConfig_not_a_message_counterexample:
  "(NotProtoMessage :: nat Object) \<noteq> NilObject
   \<and> GetByType [schemaExample] ''route-rule'' = Some schemaExample
   \<and> ValidateConfig messageNameExample [schemaExample] ''route-rule'' NotProtoMessage
       = Some (Plain CannotCastToProtoMessage)"
  by (simp add: ValidateConfig_def GetByType_def schemaExample_def)

subsection \<open>Aggregation of the validators\<close>

lemma errorsOf_Append: "errorsOf (Append errs e) = errorsOf errs @ errorsOf (Some e)"
  by (simp add: Append_def)

lemma errorsOf_Prefix: "errorsOf (Some (Prefix err pre)) = map (Prefixed pre) (errorsOf (Some err))"
  by (cases err) simp_all

text \<open>How the steps of a validator compose.\<close>

lemma appends_id: "appends (\<lambda>x. x) []"
  by (simp add: appends_def)

lemma appends_Plain: "appends (\<lambda>x. Append x (Plain e)) [e]"
  by (simp add: appends_def errorsOf_Append)

lemma appends_result:
  "appends (\<lambda>x. case r of Some err \<Rightarrow> Append x err | None \<Rightarrow> x) (errorsOf r)"
  by (cases r) (simp_all add: appends_def errorsOf_Append)

lemma appends_result_prefix:
  "appends (\<lambda>x. case r of Some err \<Rightarrow> Append x (Prefix err pre) | None \<Rightarrow> x)
     (map (Prefixed pre) (errorsOf r))"
  by (cases r) (simp_all add: appends_def errorsOf_Append errorsOf_Prefix)

lemma appends_result_fixed:
  "appends (\<lambda>x. case r of Some err \<Rightarrow> Append x (Plain e) | None \<Rightarrow> x)
     (if r \<noteq> None then [e] else [])"
  by (cases r) (simp_all add: appends_def errorsOf_Append)

lemma appends_if:
  "appends f p \<Longrightarrow> appends g q \<Longrightarrow> appends (\<lambda>x. if c then f x else g x) (if c then p else q)"
  by (simp add: appends_def)

lemma appends_option:
  "appends f p \<Longrightarrow> (\<And>y. appends (g y) (q y)) \<Longrightarrow>
   appends (\<lambda>x. case fld of None \<Rightarrow> f x | Some y \<Rightarrow> g y x) (case fld of None \<Rightarrow> p | Some y \<Rightarrow> q y)"
  by (cases fld) (simp_all add: appends_def)

lemma appends_Let_last: "appends f p \<Longrightarrow> appends (\<lambda>x. Let (f x) (\<lambda>errs. errs)) p"
  by (simp add: appends_def)

lemma appends_Let: "appends f p \<Longrightarrow> appends g q \<Longrightarrow> appends (\<lambda>x. Let (f x) g) (p @ q)"
  by (simp add: appends_def)

lemma appends_fold:
  "(\<And>y. appends (body y) (part y)) \<Longrightarrow> appends (\<lambda>x. fold body ys x) (concat (map part ys))"
proof -
  assume a: "\<And>y. appends (body y) (part y)"
  have "errorsOf (fold body ys x) = errorsOf x @ concat (map part ys)" for x
  proof (induction ys arbitrary: x)
    case Nil
    then show ?case by simp
  next
    case (Cons y ys)
    show ?case using a [of y] by (simp add: Cons.IH appends_def)
  qed
  then show ?thesis by (simp add: appends_def)
qed

lemma appends_prod:
  "(\<And>a b. appends (f a b) (q a b)) \<Longrightarrow>
   appends (case y of (a, b) \<Rightarrow> f a b) (case y of (a, b) \<Rightarrow> q a b)"
  by (cases y) simp

lemma appends_MatchType:
  "appends f p \<Longrightarrow> (\<And>s. appends (g1 s) (q1 s)) \<Longrightarrow> (\<And>s. appends (g2 s) (q2 s)) \<Longrightarrow>
   (\<And>s. appends (g3 s) (q3 s)) \<Longrightarrow>
   appends (\<lambda>x. case m of None \<Rightarrow> f x
                | Some (StringMatch_Exact s) \<Rightarrow> g1 s x
                | Some (StringMatch_Prefix s) \<Rightarrow> g2 s x
                | Some (StringMatch_Regex s) \<Rightarrow> g3 s x)
     (case m of None \<Rightarrow> p
      | Some (StringMatch_Exact s) \<Rightarrow> q1 s
      | Some (StringMatch_Prefix s) \<Rightarrow> q2 s
      | Some (StringMatch_Regex s) \<Rightarrow> q3 s)"
  by (simp add: appends_def split: option.splits StringMatch_MatchType.splits)

lemma appends_ErrorType:
  "appends f p \<Longrightarrow> (\<And>s. appends (g1 s) (q1 s)) \<Longrightarrow> (\<And>s. appends (g2 s) (q2 s)) \<Longrightarrow>
   (\<And>s. appends (g3 s) (q3 s)) \<Longrightarrow>
   appends (\<lambda>x. case m of None \<Rightarrow> f x
                | Some (GrpcStatus s) \<Rightarrow> g1 s x
                | Some (Http2Error s) \<Rightarrow> g2 s x
                | Some (HttpStatus s) \<Rightarrow> g3 s x)
     (case m of None \<Rightarrow> p
      | Some (GrpcStatus s) \<Rightarrow> q1 s
      | Some (Http2Error s) \<Rightarrow> q2 s
      | Some (HttpStatus s) \<Rightarrow> q3 s)"
  by (simp add: appends_def split: option.splits Abort_ErrorType.splits)

lemma appends_start: "appends g p \<Longrightarrow> p = r \<Longrightarrow> errorsOf (Let None g) = r"
  by (simp add: appends_def)

lemma appends_fold_start:
  "(\<And>y. appends (body y) (part y)) \<Longrightarrow> concat (map part ys) = r \<Longrightarrow>
   errorsOf (fold body ys None) = r"
  using appends_fold [of body part ys] by (simp add: appends_def)

lemmas appends_rules =
  appends_id appends_Plain appends_result appends_result_prefix appends_result_fixed
  appends_Let_last appends_Let appends_if appends_MatchType appends_ErrorType
  appends_option appends_fold appends_prod

text \<open>The validators that return at their first violation.\<close>

lemma find_take_filter:
  "(case find P xs of Some x \<Rightarrow> [f x] | None \<Rightarrow> []) = take 1 (map f (filter P xs))"
  by (induction xs) simp_all

lemma ValidateFQDN_errors: "errorsOf (ValidateFQDN fqdn) = take 1 (fqdnViolations fqdn)"
proof -
  have "errorsOf (case find P xs of Some label \<Rightarrow> Some (Plain (f label)) | None \<Rightarrow> None)
        = take 1 (map f (filter P xs))" for P :: "string \<Rightarrow> bool" and xs f
    using find_take_filter [of f P xs] by (cases "find P xs") simp_all
  then show ?thesis by (simp add: ValidateFQDN_def fqdnViolations_def)
qed

lemma ValidateIPv4Address_errors:
  "errorsOf (ValidateIPv4Address env addr) = take 1 (ipv4AddressViolations env addr)"
proof -
  have "errorsOf (case find P xs of Some octet \<Rightarrow> Some (Plain e) | None \<Rightarrow> None)
        = take 1 (map (\<lambda>octet. e) (filter P xs))" for P :: "string \<Rightarrow> bool" and xs e
    using find_take_filter [of "\<lambda>octet. e" P xs] by (cases "find P xs") simp_all
  then show ?thesis
    by (simp add: ValidateIPv4Address_def ipv4AddressViolations_def invalidOctet_def [abs_def])
qed

lemma ValidateDuration_errors:
  "errorsOf (ValidateDuration env pd) = take 1 (durationViolations env pd)"
  by (simp add: ValidateDuration_def durationViolations_def split: sum.splits)

text \<open>The validators that aggregate, from the innermost.\<close>

lemma Validate_Tags_errors: "errorsOf (Validate_Tags t) = tagsViolations t"
  unfolding Validate_Tags_def
  apply (rule appends_fold_start)
   apply (rule appends_rules)+
  unfolding tagsViolations_def
  apply (rule refl)
  done

lemma ValidatePercent_errors: "errorsOf (ValidatePercent val) = percentViolations val"
  by (simp add: ValidatePercent_def percentViolations_def)

lemma ValidateFloatPercent_errors:
  "errorsOf (ValidateFloatPercent val) = floatPercentViolations val"
  by (simp add: ValidateFloatPercent_def floatPercentViolations_def)

lemma ValidateDestinationWeight_errors:
  "errorsOf (ValidateDestinationWeight dw) = destinationWeightViolations dw"
  unfolding ValidateDestinationWeight_def
  apply (rule appends_start)
   apply (rule appends_rules)+
  unfolding destinationWeightViolations_def ValidateFQDN_errors Validate_Tags_errors
    ValidatePercent_errors
  apply (rule refl)
  done

lemma ValidateCIDRBlock_errors:
  "errorsOf (ValidateCIDRBlock env cidr) = cidrBlockViolations env cidr"
  by (simp add: ValidateCIDRBlock_def cidrBlockViolations_def split: option.splits)

lemma ValidateIPv4Subnet_parts:
  "errorsOf (let errs = None;
                 errs = (if length parts = 2
                         then (case ValidateCIDRBlock env (parts ! 1) of
                                 Some err \<Rightarrow> Append errs err | None \<Rightarrow> errs)
                         else errs);
                 errs = (case ValidateIPv4Address env (parts ! 0) of
                           Some err \<Rightarrow> Append errs err | None \<Rightarrow> errs)
             in errs)
   = (if length parts = 2 then cidrBlockViolations env (parts ! 1) else []) @
     take 1 (ipv4AddressViolations env (parts ! 0))"
  apply (rule appends_start)
   apply (rule appends_rules)+
  unfolding ValidateCIDRBlock_errors ValidateIPv4Address_errors
  apply (rule refl)
  done

lemma errorsOf_Let_if:
  "errorsOf (let parts = s in if c parts then a parts else b parts)
   = (if c s then errorsOf (a s) else errorsOf (b s))"
  by simp

lemma ValidateIPv4Subnet_errors:
  "errorsOf (ValidateIPv4Subnet env subnet) = subnetViolations env subnet"
  unfolding ValidateIPv4Subnet_def
  apply (subst errorsOf_Let_if)
  unfolding ValidateIPv4Subnet_parts subnetViolations_def
  apply simp
  done

lemma ValidateSubnet_errors: "errorsOf (ValidateSubnet env subnet) = subnetViolations env subnet"
  by (simp add: ValidateSubnet_def ValidateIPv4Subnet_errors)

lemma ValidateL4MatchAttributes_errors:
  "errorsOf (ValidateL4MatchAttributes env ma) = l4MatchAttributesViolations env ma"
  unfolding ValidateL4MatchAttributes_def
  apply (rule appends_start)
   apply (rule appends_rules)+
  unfolding l4MatchAttributesViolations_def ValidateSubnet_errors
  apply (rule refl)
  done

lemma ValidateHTTPHeaderName_errors:
  "errorsOf (ValidateHTTPHeaderName env name) = httpHeaderNameViolations env name"
  by (simp add: ValidateHTTPHeaderName_def httpHeaderNameViolations_def)

lemma ValidateStringMatch_errors:
  "errorsOf (ValidateStringMatch match) = stringMatchViolations match"
  by (simp add: ValidateStringMatch_def stringMatchViolations_def split: option.splits)

lemma ValidateMatchCondition_errors:
  "errorsOf (ValidateMatchCondition env mc) = matchConditionViolations env mc"
  unfolding ValidateMatchCondition_def
  apply (rule appends_start)
   apply (rule appends_rules)+
  unfolding matchConditionViolations_def ValidateFQDN_errors Validate_Tags_errors
    ValidateL4MatchAttributes_errors ValidateHTTPHeaderName_errors ValidateStringMatch_errors
  apply (rule refl)
  done

lemma ValidateHTTPTimeout_errors:
  "errorsOf (ValidateHTTPTimeout env timeout) = httpTimeoutViolations env timeout"
  unfolding ValidateHTTPTimeout_def
  apply (rule appends_start)
   apply (rule appends_rules)+
  unfolding httpTimeoutViolations_def ValidateDuration_errors
  apply (rule refl)
  done

lemma ValidateHTTPRetries_errors:
  "errorsOf (ValidateHTTPRetries env retry) = httpRetriesViolations env retry"
  unfolding ValidateHTTPRetries_def
  apply (rule appends_start)
   apply (rule appends_rules)+
  unfolding httpRetriesViolations_def ValidateDuration_errors
  apply (rule refl)
  done

lemma ValidateDelay_errors: "errorsOf (ValidateDelay env delay) = delayViolations env delay"
  unfolding ValidateDelay_def
  apply (rule appends_start)
   apply (rule appends_rules)+
  unfolding delayViolations_def ValidateDuration_errors ValidateFloatPercent_errors
  apply (rule refl)
  done

lemma ValidateAbortHTTPStatus_errors:
  "errorsOf (ValidateAbortHTTPStatus httpStatus) = abortHTTPStatusViolations httpStatus"
  unfolding ValidateAbortHTTPStatus_def
  apply (rule appends_start)
   apply (rule appends_rules)+
  unfolding abortHTTPStatusViolations_def
  apply (rule refl)
  done

lemma ValidateAbort_errors: "errorsOf (ValidateAbort abort) = abortViolations abort"
  unfolding ValidateAbort_def
  apply (rule appends_start)
   apply (rule appends_rules)+
  unfolding abortViolations_def ValidateFloatPercent_errors ValidateAbortHTTPStatus_errors
  apply (rule refl)
  done

lemma ValidateHTTPFault_errors:
  "errorsOf (ValidateHTTPFault env fault) = httpFaultViolations env fault"
  unfolding ValidateHTTPFault_def
  apply (rule appends_start)
   apply (rule appends_rules)+
  unfolding httpFaultViolations_def ValidateDelay_errors ValidateAbort_errors
  apply (rule refl)
  done

lemma ValidateTerminate_errors:
  "errorsOf (ValidateTerminate terminate) = terminateViolations terminate"
  unfolding ValidateTerminate_def
  apply (rule appends_start)
   apply (rule appends_rules)+
  unfolding terminateViolations_def ValidateFloatPercent_errors
  apply (rule refl)
  done

lemma ValidateDuration_None:
  "(ValidateDuration env pd = None) = (durationViolations env pd = [])"
  by (simp add: ValidateDuration_def durationViolations_def split: sum.splits)

lemma ValidateThrottle_errors:
  "errorsOf (ValidateThrottle env throttle) = throttleViolations env throttle"
  unfolding ValidateThrottle_def
  apply (rule appends_start)
   apply (rule appends_rules)+
  unfolding throttleViolations_def ValidateDuration_None ValidateFloatPercent_errors
  apply (rule refl)
  done

lemma ValidateL4Fault_errors: "errorsOf (ValidateL4Fault env fault) = l4FaultViolations env fault"
  unfolding ValidateL4Fault_def
  apply (rule appends_start)
   apply (rule appends_rules)+
  unfolding l4FaultViolations_def ValidateTerminate_errors ValidateThrottle_errors
  apply (rule refl)
  done

lemma ValidateRouteRule_errors:
  "errorsOf (ValidateRouteRule env (RouteRuleMessage v)) = routeRuleViolations env v"
  unfolding ValidateRouteRule_def Message.case
  apply (rule appends_start)
   apply (rule appends_rules)+
  unfolding routeRuleViolations_def ValidateFQDN_errors ValidateMatchCondition_errors
    ValidateDestinationWeight_errors ValidateHTTPTimeout_errors ValidateHTTPRetries_errors
    ValidateHTTPFault_errors ValidateL4Fault_errors
  apply (rule refl)
  done

lemma ValidateIngressRule_errors:
  "errorsOf (ValidateIngressRule (IngressRuleMessage v)) = ingressRuleViolations v"
  unfolding ValidateIngressRule_def Message.case
  apply (rule appends_start)
   apply (rule appends_rules)+
  unfolding ingressRuleViolations_def ValidateFQDN_errors
  apply (rule refl)
  done

lemma ValidateCircuitBreaker_errors:
  "errorsOf (ValidateCircuitBreaker env cb) = circuitBreakerViolations env cb"
  unfolding ValidateCircuitBreaker_def
  apply (rule appends_start)
   apply (rule appends_rules)+
  unfolding circuitBreakerViolations_def ValidateDuration_None ValidatePercent_errors
  apply (rule refl)
  done

lemma ValidateLoadBalancing_errors:
  "errorsOf (ValidateLoadBalancing lb) = loadBalancingViolations lb"
  by (simp add: ValidateLoadBalancing_def loadBalancingViolations_def)

lemma ValidateDestinationPolicy_errors:
  "errorsOf (ValidateDestinationPolicy env (DestinationPolicyMessage v))
   = destinationPolicyViolations env v"
  unfolding ValidateDestinationPolicy_def Message.case
  apply (rule appends_start)
   apply (rule appends_rules)+
  unfolding destinationPolicyViolations_def ValidateFQDN_errors Validate_Tags_errors
    ValidateCircuitBreaker_errors ValidateLoadBalancing_errors
  apply (rule refl)
  done

text \<open>The descriptor check, kind by kind.\<close>

lemma Let_errorsOf:
  assumes "errorsOf a = p" and "\<And>x. errorsOf x = p \<Longrightarrow> errorsOf (f x) = r"
  shows "errorsOf (Let a f) = r"
  using assms by (simp add: Let_def)

lemma stage_if:
  "errorsOf x = p \<Longrightarrow>
   errorsOf (if c then Append x (Plain e) else x) = p @ (if c then [e] else [])"
  by (simp add: errorsOf_Append)

lemma Validate_loop_errors:
  "errorsOf (Validate_loop messageType rest (Type_schema ` set pre) (MessageName ` set pre) errs)
   = errorsOf errs @
     concat (map (descriptorViolations messageType (pre @ rest))
                 [length pre ..< length pre + length rest])"
proof (induction rest arbitrary: pre errs)
  case Nil
  then show ?case by simp
next
  case (Cons v rest)
  have IH': "errorsOf (Validate_loop messageType rest (insert (Type_schema v) (Type_schema ` set pre))
                 (insert (MessageName v) (MessageName ` set pre)) e)
     = errorsOf e @ concat (map (descriptorViolations messageType (pre @ v # rest))
                 [Suc (length pre) ..< Suc (length pre + length rest)])" for e
    using Cons.IH [of "pre @ [v]" e] by simp
  have hd: "descriptorViolations messageType (pre @ v # rest) (length pre) =
      (if Key_schema v = None then [MissingKeyFunction (Type_schema v)] else []) @
      (if \<not> IsDNS1123Label (Type_schema v) then [InvalidType (Type_schema v)] else []) @
      (if \<not> IsDNS1123Label (Plural v) then [InvalidPlural (Type_schema v)] else []) @
      (if \<not> messageType (MessageName v) then [CannotDiscoverMessageType (MessageName v)] else []) @
      (if Type_schema v \<in> Type_schema ` set pre then [DuplicateType (Type_schema v)] else []) @
      (if MessageName v \<in> MessageName ` set pre then [DuplicateMessageType (MessageName v)] else [])"
    by (simp add: descriptorViolations_def Let_def)
  have upt: "[length pre ..< length pre + length (v # rest)]
      = length pre # [Suc (length pre) ..< Suc (length pre + length rest)]"
    using upt_conv_Cons [of "length pre" "length pre + length (v # rest)"] by simp
  have step: "errorsOf (Validate_loop messageType (v # rest) (Type_schema ` set pre)
        (MessageName ` set pre) errs)
      = (errorsOf errs @ descriptorViolations messageType (pre @ v # rest) (length pre)) @
        concat (map (descriptorViolations messageType (pre @ v # rest))
                 [Suc (length pre) ..< Suc (length pre + length rest)])"
    unfolding Validate_loop.simps hd
    apply (rule Let_errorsOf, rule stage_if [OF refl])
    apply (rule Let_errorsOf, erule stage_if)
    apply (rule Let_errorsOf, erule stage_if)
    apply (rule Let_errorsOf, erule stage_if)
    apply (rule Let_errorsOf, erule stage_if)
    apply (subst Let_def)
    apply (rule Let_errorsOf, erule stage_if)
    apply (subst Let_def)
    apply (simp only: IH' append_assoc)
    done
  show ?case
    unfolding step upt by simp
qed

lemma Validate_errors:
  "errorsOf (Validate messageType descriptor)
   = concat (map (descriptorViolations messageType descriptor) [0..<length descriptor])"
  using Validate_loop_errors [of messageType descriptor "[]" None]
  by (simp add: Validate_def)

lemma Split_no_separator: "sep \<notin> set s \<Longrightarrow> Split s sep = [s]"
  by (induction s) auto



lemma labels_example:
  "IsDNS1123Label ''route-rule''" "IsDNS1123Label ''route-rules''"
  "\<not> IsDNS1123Label ''Route Rules''" "\<not> IsDNS1123Label ''A''" "\<not> IsDNS1123Label []"
  "IsDNS1123Label ''a''" "IsDNS1123Label ''b''"
  by (simp_all add: IsDNS1123Label_def dns1123LabelRex_def dns1123LabelMaxLength_def
      isLowerAlnum_def less_eq_char_def)

lemma tags_example: "\<not> tagRegexp ''a b''" "tagRegexp ''v''"
  by (simp_all add: tagRegexp_def isLowerAlnum_def less_eq_char_def)

lemma atoi_example:
  "atoiExample ''1'' = Some 1" "atoiExample ''2'' = Some 2" "atoiExample ''3'' = Some 3"
  "atoiExample ''40'' = Some 40"
  by (simp_all add: atoiExample_def less_eq_char_def)

lemma toLower_example: "toLowerExample ''uri'' = ''uri''"
  by (simp add: toLowerExample_def less_eq_char_def)

lemma env_example:
  "Atoi validationEnvExample = atoiExample" "ToLower validationEnvExample = toLowerExample"
  "Duration validationEnvExample (Some n) = Inr n" "HeaderURI validationEnvExample = ''uri''"
  by (simp_all add: validationEnvExample_def)

lemma matchExample_violations:
  "matchConditionViolations validationEnvExample matchExample
   = [DomainNameInvalidLabel ''A'' ''A'', InvalidTagKey ''a b'', NotValidCIDRBlock ''40'',
      NotValidIPAddress ''1.2.3'', ExactHeaderValueEmpty ''uri'']"
  by (simp add: matchConditionViolations_def matchExample_def fqdnViolations_def
      tagsViolations_def l4MatchAttributesViolations_def subnetViolations_def
      cidrBlockViolations_def ipv4AddressViolations_def invalidOctet_def
      httpHeaderNameViolations_def stringMatchViolations_def
      labels_example tags_example atoi_example toLower_example env_example)

lemma retryExample_violations:
  "httpRetriesViolations validationEnvExample retryExample
   = [Message ''attempts must be in range [0..]'',
      Prefixed (Literal ''perTryTimeout invalid: '') (Message ''duration must be greater than 1ms'')]"
  by (simp add: httpRetriesViolations_def retryExample_def durationViolations_def env_example)



end
